theory Spec2Isabelle
  imports Complex_Main
begin

section \<open>Python values used by the replay engine\<close>

text \<open>
  The exceptions the modelled code can raise. A function that can raise returns
  \<open>error + 'a\<close>, with \<open>Inl\<close> for the exception.
\<close>

datatype error = KeyError | TypeError | ZeroDivisionError | UnboundLocalError

text \<open>
  A Python \<open>dict\<close> whose insertion order matters is an association list with unique
  keys: \<open>dict_set\<close> overwrites in place or appends, as \<open>d[k] = v\<close> does.
\<close>

fun dict_get :: "('k \<times> 'v) list \<Rightarrow> 'k \<Rightarrow> 'v option" where
  "dict_get [] k = None"
| "dict_get ((k', v) # d) k = (if k' = k then Some v else dict_get d k)"

fun dict_set :: "('k \<times> 'v) list \<Rightarrow> 'k \<Rightarrow> 'v \<Rightarrow> ('k \<times> 'v) list" where
  "dict_set [] k v = [(k, v)]"
| "dict_set ((k', v') # d) k v =
     (if k' = k then (k, v) # d else (k', v') # dict_set d k v)"

definition dict_keys :: "('k \<times> 'v) list \<Rightarrow> 'k list" where
  "dict_keys d = map fst d"

text \<open>\<open>xs[:n]\<close>: a negative bound counts from the end of the list.\<close>

definition py_slice_to :: "int \<Rightarrow> 'a list \<Rightarrow> 'a list" where
  "py_slice_to n xs =
     (if 0 \<le> n then take (nat n) xs else take (length xs - nat (- n)) xs)"

text \<open>
  \<open>round(a / b)\<close> for integers \<open>a\<close> and \<open>b > 0\<close>: Python 3 divides to a float and
  rounds to the nearest integer, a tie going to the even neighbour. The model rounds the
  exact quotient; the double-precision quotient rounds the same way for every \<open>a\<close>
  below \<open>2^52\<close>, and the sizes here pass through a 32-bit tensor.
\<close>

definition py_round_div :: "int \<Rightarrow> int \<Rightarrow> int" where
  "py_round_div a b =
     (let q = a div b; r = a mod b
      in if 2 * r < b then q
         else if b < 2 * r then q + 1
         else if even q then q else q + 1)"

text \<open>\<open>x in s\<close> for two strings is the substring test.\<close>

fun startswith :: "string \<Rightarrow> string \<Rightarrow> bool" where
  "startswith s [] = True"
| "startswith [] (p # ps) = False"
| "startswith (c # s) (p # ps) = (c = p \<and> startswith s ps)"

fun str_contains :: "string \<Rightarrow> string \<Rightarrow> bool" where
  "str_contains [] x = (x = [])"
| "str_contains (c # s) x = (startswith (c # s) x \<or> str_contains s x)"

section \<open>The trace record (\<open>commsArgs\<close>)\<close>

text \<open>
  One operation of the trace. The class is declared in \<open>comms_utils\<close>; its fields are
  the ones \<open>extractCommsInfo\<close>, \<open>prepComms\<close> and \<open>rebalanceSplit\<close> read and write.
  Every field but \<open>comms\<close> and \<open>seqnum\<close> may be \<open>None\<close>.
\<close>

record commsArgs =
  comms :: string
  seqnum :: nat
  req :: "int option"
  inMsgSize :: "int option"
  outMsgSize :: "int option"
  dtype :: "string option"
  inSplit :: "int list option"
  outSplit :: "int list option"
  startTimeNs :: "int option"
  pgId :: "int option"
  groupRanks :: "int list option"
  worldSize :: "int option"
  markerStack :: "string list option"
  root :: "int option"
  eg_id :: "int option"

section \<open>The backend (\<open>pytorch_dist_backend.py\<close>)\<close>

text \<open>
  A process group of \<open>torch.distributed\<close>: the world group, or a group made by
  \<open>new_group\<close> from a list of global ranks.
\<close>

datatype pg = WORLD | NewGroup "int list"

text \<open>
  What \<open>torch.distributed\<close> is asked to do, in order. \<open>Issue k h\<close> is a collective of
  kind \<open>k\<close> handed to the library, which returned the work handle \<open>h\<close> (\<open>None\<close> for a
  synchronous call); \<open>Await h\<close> is a call of \<open>h.wait()\<close>; \<open>DeviceSync\<close> is
  \<open>device_sync\<close>.
\<close>

type_synonym handle = nat

datatype event = Issue string "handle option" | Await handle | DeviceSync

text \<open>
  \<open>collectiveArgsHolder\<close>, the argument bundle every backend entry receives. The last
  two fields are not attributes of the Python object: \<open>next_handle\<close> numbers the work
  handles the library returns, and \<open>events\<close> records the calls made into it.
\<close>

record collectiveArgsHolder =
  group :: pg
  groups :: "(int option \<times> pg) list"
  world_size :: "int option"
  collectiveId :: int
  asyncOp :: bool
  waitObj :: "handle option list"
  waitObjIds :: "(int \<times> handle option) list"
  next_handle :: nat
  events :: "event list"

text \<open>
  The entries of \<open>collectiveFunc\<close>. \<open>Collective\<close> stands for the methods of signature
  \<open>(collectiveArgs, retFlag, pair)\<close> that hand one operation to the library
  (\<open>all_reduce\<close>, \<open>all_to_allv\<close>, \<open>all_gather\<close>, \<open>barrier\<close>, ...); \<open>P2P\<close> for
  \<open>send\<close>, \<open>recv\<close>, \<open>isend\<close> and \<open>irecv\<close>, whose second positional parameter is the
  peer rank; \<open>Wait\<close> for \<open>wait\<close>; \<open>Noop\<close> for \<open>noop\<close>.
\<close>

datatype backend_fn = Collective | P2P | Wait | Noop

text \<open>
  The backend object: the world description it was built from, and the dictionary
  \<open>collectiveFunc\<close> it inherits from \<open>backendFunctions\<close> (declared in \<open>comms_utils\<close>,
  hence a field here).
\<close>

record backend =
  be_world_size :: int
  be_global_rank :: int
  inherited_collectiveFunc :: "(string \<times> backend_fn) list"

text \<open>\<open>__init__\<close> adds six entries to the inherited dictionary.\<close>

definition collectiveFunc :: "backend \<Rightarrow> (string \<times> backend_fn) list" where
  "collectiveFunc be =
     dict_set (dict_set (dict_set (dict_set (dict_set (dict_set
       (inherited_collectiveFunc be)
         ''wait'' Wait) ''send'' P2P) ''recv'' P2P) ''isend'' P2P) ''irecv'' P2P)
         ''pt2pt'' Noop"

definition get_world_size :: "backend \<Rightarrow> int" where
  "get_world_size be = be_world_size be"

definition get_default_group :: "backend \<Rightarrow> pg" where
  "get_default_group be = WORLD"

text \<open>
  \<open>dist.get_rank(group)\<close>: the rank of this process inside the group, \<open>-1\<close> when it is
  not a member.
\<close>

fun index_of :: "int \<Rightarrow> int list \<Rightarrow> int" where
  "index_of r [] = - 1"
| "index_of r (x # xs) =
     (if x = r then 0 else (let i = index_of r xs in if i = - 1 then - 1 else i + 1))"

fun get_group_rank :: "backend \<Rightarrow> pg \<Rightarrow> int" where
  "get_group_rank be WORLD = be_global_rank be"
| "get_group_rank be (NewGroup ranks) = index_of (be_global_rank be) ranks"

text \<open>
  A \<open>Collective\<close> entry, e.g. \<open>all_reduce(collectiveArgs, retFlag)\<close>: the library call
  returns a work handle iff \<open>async_op\<close>; an asynchronous handle joins the FIFO
  \<open>waitObj\<close>; the handle is returned iff \<open>retFlag\<close>. (Quantisation is off.)
\<close>

definition collective ::
  "string \<Rightarrow> bool \<Rightarrow> collectiveArgsHolder \<Rightarrow> collectiveArgsHolder \<times> handle option" where
  "collective kind retFlag ca =
     (let retObj = (if asyncOp ca then Some (next_handle ca) else None);
          ca1 = ca\<lparr>next_handle := (if asyncOp ca then next_handle ca + 1 else next_handle ca),
                    events := events ca @ [Issue kind retObj]\<rparr>;
          ca2 = (if asyncOp ca then ca1\<lparr>waitObj := waitObj ca1 @ [retObj]\<rparr> else ca1)
      in (ca2, if retFlag then retObj else None))"

definition device_sync :: "collectiveArgsHolder \<Rightarrow> collectiveArgsHolder" where
  "device_sync ca = ca\<lparr>events := events ca @ [DeviceSync]\<rparr>"

text \<open>The loop of \<open>complete_accel_ops\<close>: \<open>wait()\<close> on every request that is not \<open>None\<close>.\<close>

fun wait_all :: "handle option list \<Rightarrow> event list" where
  "wait_all [] = []"
| "wait_all (None # ws) = wait_all ws"
| "wait_all (Some h # ws) = Await h # wait_all ws"

definition complete_accel_ops :: "bool \<Rightarrow> collectiveArgsHolder \<Rightarrow> collectiveArgsHolder" where
  "complete_accel_ops devSync ca =
     (let ca1 = ca\<lparr>events := events ca @ wait_all (waitObj ca)\<rparr>;
          ca2 = ca1\<lparr>waitObj := [], waitObjIds := []\<rparr>
      in if devSync then device_sync ca2 else ca2)"

definition complete_single_op :: "collectiveArgsHolder \<Rightarrow> collectiveArgsHolder" where
  "complete_single_op ca =
     (case waitObj ca of
        [] \<Rightarrow> ca
      | waitReq # rest \<Rightarrow>
          device_sync (ca\<lparr>waitObj := rest, events := events ca @ wait_all [waitReq]\<rparr>))"

definition wait :: "collectiveArgsHolder \<Rightarrow> collectiveArgsHolder" where
  "wait ca =
     (if length (waitObjIds ca) = 0 then complete_single_op ca
      else (case dict_get (waitObjIds ca) (collectiveId ca) of
              None \<Rightarrow> ca
            | Some w \<Rightarrow> ca\<lparr>events := events ca @ wait_all [w]\<rparr>))"

definition sync_barrier :: "collectiveArgsHolder \<Rightarrow> collectiveArgsHolder" where
  "sync_barrier ca = complete_accel_ops True (fst (collective ''barrier'' False ca))"

text \<open>
  \<open>collectiveFunc[name](collectiveArgs, retFlag=True)\<close> as \<open>runComms\<close> calls it, and
  \<open>collectiveFunc[name](collectiveArgs)\<close> as \<open>warmUpBench\<close> and \<open>rebalanceSplit\<close> do:
  a \<open>P2P\<close> entry is called without its peer rank, which is a \<open>TypeError\<close>.
\<close>

fun call_backend ::
  "backend_fn \<Rightarrow> string \<Rightarrow> bool \<Rightarrow> collectiveArgsHolder \<Rightarrow>
     error + (collectiveArgsHolder \<times> handle option)" where
  "call_backend Collective kind retFlag ca = Inr (collective kind retFlag ca)"
| "call_backend P2P kind retFlag ca = Inl TypeError"
| "call_backend Wait kind retFlag ca = Inr (wait ca, None)"
| "call_backend Noop kind retFlag ca = Inr (ca, None)"

section \<open>What the sources under study take from outside\<close>

text \<open>
  Functions of \<open>comms_utils\<close> and of the collective library that the replay engine
  calls and whose code is not part of the two files: the kind canonicaliser
  \<open>paramToCommName\<close>; the value every rank holds after the \<open>all_reduce\<close> of the
  rebalance step, given the local contribution; and the two intervals \<open>runComms\<close>
  measures for the operation with a given sequence number, in nanoseconds (the clock is
  \<open>time.monotonic\<close>, so an interval is never negative).
\<close>

record ext =
  paramToCommName :: "string \<Rightarrow> string"
  all_reduce_value :: "int \<Rightarrow> int"
  coll_interval_ns :: "nat \<Rightarrow> nat"
  barrier_interval_ns :: "nat \<Rightarrow> nat"

section \<open>The replay bench (\<open>commsTraceReplay.py\<close>)\<close>

text \<open>One entry of the augmented output trace: the record's own fields and the timings.\<close>

record recordComm =
  rc_comm :: commsArgs
  marker_stack :: string
  latency_us :: real
  global_latency_us :: real

text \<open>An entry of a block: the size summary of a dry run, or a replayed record.\<close>

datatype block_entry =
  SizeEntry string "int option" "int option"
| NameEntry string
| PerfEntry recordComm

text \<open>
  The attributes of \<open>commsTraceReplayBench\<close> the modelled methods use, with
  \<open>commsParams.groupRanks\<close>. \<open>dispatched\<close> and \<open>logged\<close> are not attributes: they
  record the sequence numbers handed to \<open>collectiveFunc\<close> by \<open>runComms\<close>, and the
  messages of \<open>logger.error\<close> and \<open>logger.warn\<close>.
\<close>

record bench =
  comms_trace :: "commsArgs list"
  shrink :: bool
  max_msg_cnt :: int
  is_blocking :: bool
  is_dry_run :: bool
  allowList :: "string list"
  rebalance_policy :: string
  self_world_size :: int
  collInMsgSizes :: "(string \<times> int list) list"
  collInUniMsgSizes :: "(string \<times> int set) list"
  collOutMsgSizes :: "(string \<times> int list) list"
  collOutUniMsgSizes :: "(string \<times> int set) list"
  collLat :: "(string \<times> real list) list"
  comms_blocks :: "(string \<times> block_entry list) list"
  traceWithPerf :: "recordComm list"
  totalCommsLatency :: real
  groupRanks_params :: "(int option \<times> int list option) list"
  collectiveArgs :: collectiveArgsHolder
  backendFuncs :: backend
  dispatched :: "nat list"
  logged :: "string list"

subsection \<open>\<open>extractCommsInfo\<close>\<close>

text \<open>
  A record of the input trace: a JSON object, a missing key being \<open>None\<close>. The values
  have the types the trace format gives them.
\<close>

record rawComm =
  j_comms :: "string option"
  j_req :: "int option"
  j_startTime_ns :: "int option"
  j_markers :: "string list option"
  j_world_size :: "int option"
  j_root :: "int option"
  j_pg_id :: "int option"
  j_global_ranks :: "int list option"
  j_in_msg_size :: "int option"
  j_out_msg_size :: "int option"
  j_dtype :: "string option"
  j_in_split :: "int list option"
  j_out_split :: "int list option"

text \<open>\<open>str.lower\<close> on ASCII.\<close>

definition lower_char :: "char \<Rightarrow> char" where
  "lower_char c =
     (case dict_get (zip ''ABCDEFGHIJKLMNOPQRSTUVWXYZ'' ''abcdefghijklmnopqrstuvwxyz'') c of
        None \<Rightarrow> c
      | Some l \<Rightarrow> l)"

definition py_lower :: "string \<Rightarrow> string" where
  "py_lower s = map lower_char s"

text \<open>
  The body of the loop of \<open>extractCommsInfo\<close>. \<open>curComm["k"]\<close> on a missing key is a
  \<open>KeyError\<close>. The last test of the source is \<open>newComm.comms in ("all_to_allv")\<close>: the
  parentheses hold a string, not a tuple, so it is the substring test.
\<close>

definition extractOne :: "ext \<Rightarrow> nat \<Rightarrow> rawComm \<Rightarrow> error + commsArgs" where
  "extractOne X cnt curComm =
     (case j_comms curComm of
        None \<Rightarrow> Inl KeyError
      | Some name \<Rightarrow>
          (let newComm = \<lparr>comms = paramToCommName X (py_lower name), seqnum = cnt,
                 req = j_req curComm, inMsgSize = None, outMsgSize = None, dtype = None,
                 inSplit = None, outSplit = None, startTimeNs = j_startTime_ns curComm,
                 pgId = j_pg_id curComm, groupRanks = j_global_ranks curComm,
                 worldSize = j_world_size curComm, markerStack = j_markers curComm,
                 root = j_root curComm, eg_id = None\<rparr>
           in (case (if comms newComm \<notin> {''wait'', ''barrier'', ''init''} then
                       (case (j_in_msg_size curComm, j_out_msg_size curComm, j_dtype curComm) of
                          (Some i, Some out, Some d) \<Rightarrow>
                            Inr (newComm\<lparr>inMsgSize := Some i, outMsgSize := Some out,
                                   dtype := Some d\<rparr>)
                        | _ \<Rightarrow> Inl KeyError)
                     else Inr newComm) of
                 Inl e \<Rightarrow> Inl e
               | Inr newComm1 \<Rightarrow>
                   if str_contains ''all_to_allv'' (comms newComm1) then
                     (case (j_in_split curComm, j_out_split curComm) of
                        (Some i, Some out) \<Rightarrow>
                          Inr (newComm1\<lparr>inSplit := Some i, outSplit := Some out\<rparr>)
                      | _ \<Rightarrow> Inl KeyError)
                   else Inr newComm1)))"

fun extractLoop :: "ext \<Rightarrow> nat \<Rightarrow> rawComm list \<Rightarrow> error + commsArgs list" where
  "extractLoop X cnt [] = Inr []"
| "extractLoop X cnt (curComm # rest) =
     (case extractOne X cnt curComm of
        Inl e \<Rightarrow> Inl e
      | Inr newComm \<Rightarrow>
          (case extractLoop X (Suc cnt) rest of
             Inl e \<Rightarrow> Inl e
           | Inr newCommsTrace \<Rightarrow> Inr (newComm # newCommsTrace)))"

definition extractCommsInfo :: "ext \<Rightarrow> rawComm list \<Rightarrow> error + commsArgs list" where
  "extractCommsInfo X in_trace = extractLoop X 0 in_trace"

subsection \<open>Process groups: \<open>setBench\<close>, \<open>initialize_backend\<close>, \<open>getCommGroupInfo\<close>\<close>

text \<open>The first loop of \<open>setBench\<close>: every \<open>init\<close> record defines a group.\<close>

fun setBench_groupRanks ::
  "commsArgs list \<Rightarrow> (int option \<times> int list option) list \<Rightarrow>
     (int option \<times> int list option) list" where
  "setBench_groupRanks [] gr = gr"
| "setBench_groupRanks (curComm # rest) gr =
     setBench_groupRanks rest
       (if comms curComm = ''init'' then dict_set gr (pgId curComm) (groupRanks curComm)
        else gr)"

text \<open>
  The loop of \<open>initialize_backend\<close> over \<open>groupRanks.items()\<close>: a group larger than
  the world clears the table and leaves the loop.
\<close>

fun create_groups ::
  "int \<Rightarrow> (int option \<times> int list option) list \<Rightarrow> (int option \<times> pg) list \<Rightarrow>
     error + (int option \<times> pg) list" where
  "create_groups world [] gs = Inr gs"
| "create_groups world ((pg_id, None) # rest) gs = Inl TypeError"
| "create_groups world ((pg_id, Some group_ranks) # rest) gs =
     (if world < int (length group_ranks) then Inr []
      else create_groups world rest
             (dict_set gs pg_id
                (if int (length group_ranks) = world then WORLD else NewGroup group_ranks)))"

definition initialize_backend ::
  "backend \<Rightarrow> (int option \<times> int list option) list \<Rightarrow> error + (int option \<times> pg) list" where
  "initialize_backend be groupRanks_tbl =
     (case create_groups (get_world_size be) groupRanks_tbl [] of
        Inl e \<Rightarrow> Inl e
      | Inr gs \<Rightarrow> Inr (if length gs = 0 then [(Some 0, get_default_group be)] else gs))"

text \<open>
  \<open>getCommGroupInfo\<close> returns the group rank of the local process (the description
  string is for the log; building it reads \<open>commsParams.groupRanks[pgId]\<close>).
\<close>

definition getCommGroupInfo :: "bench \<Rightarrow> commsArgs \<Rightarrow> error + int" where
  "getCommGroupInfo b curComm =
     (if pgId curComm \<noteq> None \<and> \<not> shrink b then
        (case dict_get (groups (collectiveArgs b)) (pgId curComm) of
           None \<Rightarrow> Inl KeyError
         | Some g \<Rightarrow>
             (case dict_get (groupRanks_params b) (pgId curComm) of
                None \<Rightarrow> Inl KeyError
              | Some ranks \<Rightarrow> Inr (get_group_rank (backendFuncs b) g)))
      else Inr (get_group_rank (backendFuncs b) (get_default_group (backendFuncs b))))"

subsection \<open>\<open>prepComms\<close>\<close>

definition py_floordiv :: "int option \<Rightarrow> int option \<Rightarrow> error + int" where
  "py_floordiv a b =
     (case (a, b) of
        (Some x, Some y) \<Rightarrow> if y = 0 then Inl ZeroDivisionError else Inr (x div y)
      | _ \<Rightarrow> Inl TypeError)"

definition py_mul :: "int \<Rightarrow> int option \<Rightarrow> error + int" where
  "py_mul x b = (case b of Some y \<Rightarrow> Inr (x * y) | None \<Rightarrow> Inl TypeError)"

text \<open>
  The recorded world size as the \<open>if self.shrink:\<close> block finds it: the record's
  \<open>worldSize\<close>, else for \<open>all_to_allv\<close> the length of a non-empty split, else the
  current world size. \<open>len(None)\<close> is a \<open>TypeError\<close>.
\<close>

definition real_world_size_of ::
  "string \<Rightarrow> int option \<Rightarrow> commsArgs \<Rightarrow> error + int option" where
  "real_world_size_of commOp cur_world_size curComm =
     (case worldSize curComm of
        Some w \<Rightarrow> Inr (Some w)
      | None \<Rightarrow>
          if commOp = ''all_to_allv'' then
            (case (inSplit curComm, outSplit curComm) of
               (Some i, Some out) \<Rightarrow>
                 if 0 < length i then Inr (Some (int (length i)))
                 else if 0 < length out then Inr (Some (int (length out)))
                 else Inr cur_world_size
             | _ \<Rightarrow> Inl TypeError)
          else Inr cur_world_size)"

text \<open>The \<open>if self.shrink:\<close> block of \<open>prepComms\<close>, on the record it mutates.\<close>

definition prepComms_shrink ::
  "string \<Rightarrow> int option \<Rightarrow> commsArgs \<Rightarrow> error + commsArgs" where
  "prepComms_shrink commOp cur_world_size curComm =
     (case real_world_size_of commOp cur_world_size curComm of
        Inl e \<Rightarrow> Inl e
      | Inr real_world_size \<Rightarrow>
     (case py_floordiv (inMsgSize curComm) real_world_size of
        Inl e \<Rightarrow> Inl e
      | Inr qi \<Rightarrow>
     (case py_mul qi cur_world_size of
        Inl e \<Rightarrow> Inl e
      | Inr newNumElemsIn \<Rightarrow>
     (case py_floordiv (outMsgSize curComm) real_world_size of
        Inl e \<Rightarrow> Inl e
      | Inr qo \<Rightarrow>
     (case py_mul qo cur_world_size of
        Inl e \<Rightarrow> Inl e
      | Inr newNumElemsOut \<Rightarrow>
          (let w = (case cur_world_size of Some w \<Rightarrow> w | None \<Rightarrow> 0) in
           if commOp = ''all_to_allv'' then
             (let outS = (case outSplit curComm of Some s \<Rightarrow> py_slice_to w s | None \<Rightarrow> []);
                  inS = (case inSplit curComm of Some s \<Rightarrow> py_slice_to w s | None \<Rightarrow> [])
              in Inr (curComm\<lparr>outSplit := Some outS, inSplit := Some inS,
                       inMsgSize := Some (if 0 < length inS then sum_list inS else newNumElemsIn),
                       outMsgSize :=
                         Some (if 0 < length outS then sum_list outS else newNumElemsOut)\<rparr>))
           else if commOp = ''all_gather'' then
             Inr (curComm\<lparr>inMsgSize := Some newNumElemsIn,
                    outMsgSize := Some (newNumElemsIn * w)\<rparr>)
           else
             Inr (curComm\<lparr>inMsgSize := Some newNumElemsIn,
                    outMsgSize := Some newNumElemsOut\<rparr>)))))))"

text \<open>The choice of the process group at the head of \<open>prepComms\<close>.\<close>

definition prepComms_group :: "bench \<Rightarrow> commsArgs \<Rightarrow> error + bench" where
  "prepComms_group b curComm =
     (if pgId curComm \<noteq> None \<and> \<not> shrink b then
        (case dict_get (groups (collectiveArgs b)) (pgId curComm) of
           None \<Rightarrow> Inl KeyError
         | Some g \<Rightarrow>
             Inr (b\<lparr>collectiveArgs :=
                      (collectiveArgs b)\<lparr>group := g, world_size := worldSize curComm\<rparr>\<rparr>))
      else
        Inr (b\<lparr>collectiveArgs :=
                 (collectiveArgs b)\<lparr>group := get_default_group (backendFuncs b)\<rparr>,
               self_world_size := get_world_size (backendFuncs b)\<rparr>))"

text \<open>
  \<open>prepComms\<close> up to the point where the sizes of the record are final. What follows in
  the source (the \<open>dtype\<close> lookup and the allocation by \<open>paramCommsBench.prepComm\<close>,
  both of \<open>comms_utils\<close>) reads the sizes from the record returned here.
\<close>

definition prepComms :: "ext \<Rightarrow> bench \<Rightarrow> commsArgs \<Rightarrow> error + (bench \<times> commsArgs)" where
  "prepComms X b curComm =
     (let commOp = paramToCommName X (comms curComm) in
      if commOp \<in> {''wait'', ''barrier''} then Inr (b, curComm)
      else
        (case prepComms_group b curComm of
           Inl e \<Rightarrow> Inl e
         | Inr b1 \<Rightarrow>
             if shrink b1 then
               (case prepComms_shrink commOp (world_size (collectiveArgs b1)) curComm of
                  Inl e \<Rightarrow> Inl e
                | Inr c1 \<Rightarrow> Inr (b1, c1))
             else Inr (b1, curComm)))"

subsection \<open>\<open>rebalanceSplit\<close>\<close>

text \<open>
  The record is returned as the source leaves it. \<open>torch.tensor([None])\<close> raises; the
  value read back from the tensor after the \<open>all_reduce\<close> is \<open>all_reduce_value\<close>.
\<close>

definition rebalanceSplit :: "ext \<Rightarrow> bench \<Rightarrow> commsArgs \<Rightarrow> error + (bench \<times> commsArgs)" where
  "rebalanceSplit X b curComm =
     (if rebalance_policy b = ''equal'' then
        (case inMsgSize curComm of
           None \<Rightarrow> Inl TypeError
         | Some n \<Rightarrow>
        (case dict_get (collectiveFunc (backendFuncs b)) ''all_reduce'' of
           None \<Rightarrow> Inl KeyError
         | Some f \<Rightarrow>
        (case call_backend f ''all_reduce'' False (collectiveArgs b) of
           Inl e \<Rightarrow> Inl e
         | Inr (ca1, r) \<Rightarrow>
        (let ca2 = complete_accel_ops True ca1 in
         case world_size ca2 of
           None \<Rightarrow> Inl TypeError
         | Some w \<Rightarrow>
             if w * w = 0 then Inl ZeroDivisionError
             else
               (let newInSize = (w * w) * py_round_div (all_reduce_value X n) (w * w);
                    inSz = newInSize div w;
                    split = replicate (nat w) (inSz div w)
                in Inr (b\<lparr>collectiveArgs := ca2\<rparr>,
                        curComm\<lparr>inMsgSize := Some inSz, outMsgSize := Some inSz,
                          inSplit := Some split, outSplit := Some split\<rparr>))))))
      else Inr (b\<lparr>logged := logged b @ [''Unsupported balancing policy. Ignoring.'']\<rparr>,
                curComm))"

subsection \<open>\<open>initTraceStat\<close>\<close>

definition dict_append ::
  "('k \<times> 'v list) list \<Rightarrow> 'k \<Rightarrow> 'v \<Rightarrow> error + ('k \<times> 'v list) list" where
  "dict_append d k v =
     (case dict_get d k of
        None \<Rightarrow> Inl KeyError
      | Some l \<Rightarrow> Inr (dict_set d k (l @ [v])))"

definition dict_add ::
  "('k \<times> 'v set) list \<Rightarrow> 'k \<Rightarrow> 'v \<Rightarrow> error + ('k \<times> 'v set) list" where
  "dict_add d k v =
     (case dict_get d k of
        None \<Rightarrow> Inl KeyError
      | Some S \<Rightarrow> Inr (dict_set d k (insert v S)))"

text \<open>The inner loop of \<open>initTraceStat\<close> over the markers of one record.\<close>

fun statBlocks ::
  "bool \<Rightarrow> string \<Rightarrow> commsArgs \<Rightarrow> string list \<Rightarrow> (string \<times> block_entry list) list \<Rightarrow>
     (string \<times> block_entry list) list" where
  "statBlocks dry collName curComm [] cb = cb"
| "statBlocks dry collName curComm (curBlock # rest) cb =
     (let cb1 = (if curBlock \<notin> set (dict_keys cb) then dict_set cb curBlock [] else cb);
          old = (case dict_get cb1 curBlock of Some l \<Rightarrow> l | None \<Rightarrow> []);
          cb2 = (if dry then
                   dict_set cb1 curBlock
                     (old @ [if collName \<notin> {''wait'', ''barrier''}
                             then SizeEntry collName (inMsgSize curComm) (outMsgSize curComm)
                             else NameEntry collName])
                 else cb1)
      in statBlocks dry collName curComm rest cb2)"

text \<open>
  The body of the loop of \<open>initTraceStat\<close>. \<open>max(None, n)\<close> is a \<open>TypeError\<close>, so a
  record with an input size and no output size raises.
\<close>

definition statOne :: "ext \<Rightarrow> bench \<Rightarrow> commsArgs \<Rightarrow> error + bench" where
  "statOne X b curComm =
     (let collName = paramToCommName X (comms curComm);
          curBlocks = (case markerStack curComm of Some m \<Rightarrow> m | None \<Rightarrow> []);
          b1 = (if collName \<notin> set (dict_keys (collLat b)) then
                  (let b' = b\<lparr>collLat := dict_set (collLat b) collName []\<rparr>
                   in if inMsgSize curComm \<noteq> None then
                        b'\<lparr>collInMsgSizes := dict_set (collInMsgSizes b') collName [],
                           collInUniMsgSizes := dict_set (collInUniMsgSizes b') collName {},
                           collOutMsgSizes := dict_set (collOutMsgSizes b') collName [],
                           collOutUniMsgSizes := dict_set (collOutUniMsgSizes b') collName {}\<rparr>
                      else b')
                else b)
      in (case (case inMsgSize curComm of
                  None \<Rightarrow> Inr b1
                | Some i \<Rightarrow>
                    (case dict_append (collInMsgSizes b1) collName i of
                       Inl e \<Rightarrow> Inl e
                     | Inr im \<Rightarrow>
                    (case dict_add (collInUniMsgSizes b1) collName i of
                       Inl e \<Rightarrow> Inl e
                     | Inr iu \<Rightarrow>
                    (case outMsgSize curComm of
                       None \<Rightarrow> Inl TypeError
                     | Some out \<Rightarrow>
                    (case dict_append (collOutMsgSizes b1) collName out of
                       Inl e \<Rightarrow> Inl e
                     | Inr om \<Rightarrow>
                    (case dict_add (collOutUniMsgSizes b1) collName out of
                       Inl e \<Rightarrow> Inl e
                     | Inr ou \<Rightarrow>
                         Inr (b1\<lparr>collInMsgSizes := im, collInUniMsgSizes := iu,
                                collOutMsgSizes := om, collOutUniMsgSizes := ou\<rparr>))))))) of
            Inl e \<Rightarrow> Inl e
          | Inr b2 \<Rightarrow>
              Inr (b2\<lparr>comms_blocks :=
                        statBlocks (is_dry_run b2) collName curComm curBlocks
                          (comms_blocks b2)\<rparr>)))"

fun statLoop :: "ext \<Rightarrow> bench \<Rightarrow> commsArgs list \<Rightarrow> error + bench" where
  "statLoop X b [] = Inr b"
| "statLoop X b (curComm # rest) =
     (case statOne X b curComm of Inl e \<Rightarrow> Inl e | Inr b1 \<Rightarrow> statLoop X b1 rest)"

definition initTraceStat :: "ext \<Rightarrow> bench \<Rightarrow> error + bench" where
  "initTraceStat X b =
     (let b0 = b\<lparr>max_msg_cnt :=
                   (if max_msg_cnt b = 0 then int (length (comms_trace b)) else max_msg_cnt b)\<rparr>
      in statLoop X b0 (py_slice_to (max_msg_cnt b0) (comms_trace b0)))"

subsection \<open>\<open>runComms\<close>\<close>

text \<open>
  \<open>runComms\<close> returns the two latencies in microseconds. When the kind has no entry in
  \<open>collectiveFunc\<close> the local \<open>retObj\<close> is never bound, and storing it in
  \<open>waitObjIds\<close> is an \<open>UnboundLocalError\<close>.
\<close>

definition runComms ::
  "ext \<Rightarrow> bench \<Rightarrow> string \<Rightarrow> commsArgs \<Rightarrow> error + (bench \<times> real \<times> real)" where
  "runComms X b collName curComm =
     (let ca1 = (if is_blocking b then sync_barrier (collectiveArgs b) else collectiveArgs b)
      in
      (case (case dict_get (collectiveFunc (backendFuncs b)) collName of
               Some f \<Rightarrow>
                 (let ca2 = (case req curComm of
                               Some r \<Rightarrow> ca1\<lparr>collectiveId := r\<rparr>
                             | None \<Rightarrow> ca1)
                  in case call_backend f collName True ca2 of
                       Inl e \<Rightarrow> Inl e
                     | Inr (ca3, retObj) \<Rightarrow>
                         Inr (b\<lparr>dispatched := dispatched b @ [seqnum curComm]\<rparr>,
                              ca3, Some retObj))
             | None \<Rightarrow>
                 Inr (b\<lparr>logged := logged b @ [''Unsupported collective name: '' @ collName
                        @ ''. Skipping replaying the collective'']\<rparr>,
                      ca1, None)) of
         Inl e \<Rightarrow> Inl e
       | Inr (b1, ca3, bound) \<Rightarrow>
           (let ca4 = complete_accel_ops (is_blocking b1) ca3
            in
            (case (if req curComm \<noteq> None \<and> \<not> is_blocking b1 \<and> collName \<noteq> ''wait'' then
                     (case (req curComm, bound) of
                        (Some r, Some retObj) \<Rightarrow>
                          Inr (ca4\<lparr>waitObjIds := dict_set (waitObjIds ca4) r retObj\<rparr>)
                      | _ \<Rightarrow> Inl UnboundLocalError)
                   else Inr ca4) of
               Inl e \<Rightarrow> Inl e
             | Inr ca5 \<Rightarrow>
                 (let latency = real (coll_interval_ns X (seqnum curComm)) / 1000
                  in if is_blocking b1 then
                       Inr (b1\<lparr>collectiveArgs := sync_barrier ca5\<rparr>, latency,
                            latency + real (barrier_interval_ns X (seqnum curComm)) / 1000)
                     else Inr (b1\<lparr>collectiveArgs := ca5\<rparr>, latency, latency))))))"

subsection \<open>\<open>replayTrace\<close>\<close>

fun join_space :: "string list \<Rightarrow> string" where
  "join_space [] = []"
| "join_space [x] = x"
| "join_space (x # y # ys) = x @ '' '' @ join_space (y # ys)"

fun append_blocks ::
  "string list \<Rightarrow> recordComm \<Rightarrow> (string \<times> block_entry list) list \<Rightarrow>
     error + (string \<times> block_entry list) list" where
  "append_blocks [] r cb = Inr cb"
| "append_blocks (curBlock # rest) r cb =
     (case dict_append cb curBlock (PerfEntry r) of
        Inl e \<Rightarrow> Inl e
      | Inr cb1 \<Rightarrow> append_blocks rest r cb1)"

text \<open>
  The body of the loop of \<open>replayTrace\<close>, returning the bench and the record (which
  \<open>prepComms\<close> mutates under auto-shrink). Timestamp pacing, the data check and the
  batch latency are left out: they read the clock and the tensors and write none of the
  fields below.
\<close>

definition replayOne :: "ext \<Rightarrow> bench \<Rightarrow> commsArgs \<Rightarrow> error + (bench \<times> commsArgs)" where
  "replayOne X b curComm =
     (let collName = paramToCommName X (comms curComm) in
      case getCommGroupInfo b curComm of
        Inl e \<Rightarrow> Inl e
      | Inr groupRank \<Rightarrow>
          if collName \<notin> set (allowList b) \<or> groupRank = - 1 then Inr (b, curComm)
          else
            (let curBlocks = (case markerStack curComm of Some m \<Rightarrow> m | None \<Rightarrow> []);
                 curBlockStack =
                   (if 0 < length curBlocks then join_space curBlocks else ''Unamed/Unknown'')
             in
             case prepComms X b curComm of
               Inl e \<Rightarrow> Inl e
             | Inr (b1, c1) \<Rightarrow>
            (case runComms X b1 collName c1 of
               Inl e \<Rightarrow> Inl e
             | Inr (b2, latency, global_latency) \<Rightarrow>
            (case dict_append (collLat b2) collName latency of
               Inl e \<Rightarrow> Inl e
             | Inr cl \<Rightarrow>
            (let r = \<lparr>rc_comm = c1, marker_stack = curBlockStack, latency_us = latency,
                       global_latency_us = global_latency\<rparr>
             in case append_blocks curBlocks r (comms_blocks b2) of
                  Inl e \<Rightarrow> Inl e
                | Inr cb \<Rightarrow>
                    Inr (b2\<lparr>collLat := cl,
                           totalCommsLatency := totalCommsLatency b2 + latency,
                           comms_blocks := cb,
                           traceWithPerf := traceWithPerf b2 @ [r]\<rparr>, c1))))))"

fun replayLoop ::
  "ext \<Rightarrow> bench \<Rightarrow> commsArgs list \<Rightarrow> error + (bench \<times> commsArgs list)" where
  "replayLoop X b [] = Inr (b, [])"
| "replayLoop X b (curComm # rest) =
     (case replayOne X b curComm of
        Inl e \<Rightarrow> Inl e
      | Inr (b1, c1) \<Rightarrow>
          (case replayLoop X b1 rest of
             Inl e \<Rightarrow> Inl e
           | Inr (b2, cs) \<Rightarrow> Inr (b2, c1 # cs)))"

definition replayTrace :: "ext \<Rightarrow> bench \<Rightarrow> error + bench" where
  "replayTrace X b =
     (case replayLoop X b (py_slice_to (max_msg_cnt b) (comms_trace b)) of
        Inl e \<Rightarrow> Inl e
      | Inr (b1, cs) \<Rightarrow> Inr (b1\<lparr>comms_trace := cs @ drop (length cs) (comms_trace b)\<rparr>))"

subsection \<open>\<open>warmUpBench\<close>\<close>

text \<open>
  The body of the loop of \<open>warmUpBench\<close>: \<open>commEntry\<close> is a deep copy, so only
  \<open>rebalanceSplit\<close> writes to the record of the trace, which is returned.
\<close>

definition warmUpOne :: "ext \<Rightarrow> bench \<Rightarrow> commsArgs \<Rightarrow> error + (bench \<times> commsArgs)" where
  "warmUpOne X b curComm =
     (let commEntry = curComm;
          commName = paramToCommName X (comms commEntry);
          fn = dict_get (collectiveFunc (backendFuncs b)) commName
      in
      case getCommGroupInfo b commEntry of
        Inl e \<Rightarrow> Inl e
      | Inr groupRank \<Rightarrow>
          if commName \<notin> set (allowList b) \<or> groupRank = - 1 then Inr (b, curComm)
          else
            (case prepComms X b commEntry of
               Inl e \<Rightarrow> Inl e
             | Inr (b1, commEntry1) \<Rightarrow>
            (case (if fn \<noteq> None \<and> commName = ''all_to_allv''
                      \<and> 0 < length (rebalance_policy b1) then
                     (let b2 = b1\<lparr>collectiveArgs := (collectiveArgs b1)\<lparr>world_size :=
                                 (if pgId commEntry1 = None \<or> shrink b1
                                  then Some (get_world_size (backendFuncs b1))
                                  else worldSize commEntry1)\<rparr>\<rparr>
                      in case rebalanceSplit X b2 curComm of
                           Inl e \<Rightarrow> Inl e
                         | Inr (b3, curComm1) \<Rightarrow>
                             (case prepComms X b3 commEntry1 of
                                Inl e \<Rightarrow> Inl e
                              | Inr (b4, commEntry2) \<Rightarrow> Inr (b4, curComm1)))
                   else Inr (b1, curComm)) of
               Inl e \<Rightarrow> Inl e
             | Inr (b5, curComm2) \<Rightarrow>
            (case (case fn of
                     Some f \<Rightarrow>
                       (case call_backend f commName False (collectiveArgs b5) of
                          Inl e \<Rightarrow> Inl e
                        | Inr (ca, r) \<Rightarrow> Inr ca)
                   | None \<Rightarrow> Inr (collectiveArgs b5)) of
               Inl e \<Rightarrow> Inl e
             | Inr ca \<Rightarrow>
                 Inr (b5\<lparr>collectiveArgs := complete_accel_ops True ca\<rparr>, curComm2)))))"

fun warmUpLoop ::
  "ext \<Rightarrow> bench \<Rightarrow> commsArgs list \<Rightarrow> error + (bench \<times> commsArgs list)" where
  "warmUpLoop X b [] = Inr (b, [])"
| "warmUpLoop X b (curComm # rest) =
     (case warmUpOne X b curComm of
        Inl e \<Rightarrow> Inl e
      | Inr (b1, c1) \<Rightarrow>
          (case warmUpLoop X b1 rest of
             Inl e \<Rightarrow> Inl e
           | Inr (b2, cs) \<Rightarrow> Inr (b2, c1 # cs)))"

definition warmUpBench :: "ext \<Rightarrow> bench \<Rightarrow> error + bench" where
  "warmUpBench X b =
     (case warmUpLoop X b (py_slice_to (max_msg_cnt b) (comms_trace b)) of
        Inl e \<Rightarrow> Inl e
      | Inr (b1, cs) \<Rightarrow> Inr (b1\<lparr>comms_trace := cs @ drop (length cs) (comms_trace b)\<rparr>))"

subsection \<open>\<open>benchTime\<close>\<close>

text \<open>
  \<open>resetComms\<close>, and the loop \<open>for i in range(self.num_replays)\<close> of \<open>benchTime\<close>:
  each round replays the trace held by the bench, resets the group and issues a barrier.
\<close>

definition resetComms :: "bench \<Rightarrow> bench" where
  "resetComms b =
     b\<lparr>collectiveArgs := (collectiveArgs b)\<lparr>group := get_default_group (backendFuncs b)\<rparr>,
       self_world_size := get_world_size (backendFuncs b)\<rparr>"

fun benchTime_replays :: "ext \<Rightarrow> nat \<Rightarrow> bench \<Rightarrow> error + bench" where
  "benchTime_replays X 0 b = Inr b"
| "benchTime_replays X (Suc n) b =
     (case replayTrace X b of
        Inl e \<Rightarrow> Inl e
      | Inr b1 \<Rightarrow>
          benchTime_replays X n
            ((resetComms b1)\<lparr>collectiveArgs := sync_barrier (collectiveArgs (resetComms b1))\<rparr>))"

text \<open>
  \<open>runBench\<close> runs the statistics pass before the replay; the two in that order.
\<close>

definition stat_then_replay :: "ext \<Rightarrow> bench \<Rightarrow> error + bench" where
  "stat_then_replay X b =
     (case initTraceStat X b of Inl e \<Rightarrow> Inl e | Inr b1 \<Rightarrow> replayTrace X b1)"

text \<open>
  The test at the head of the loop of \<open>replayTrace\<close> (the record is replayed when
  \<open>collName in allowList\<close> and \<open>groupRank != -1\<close>), and the parts of the bench that
  decide it, which no step of the replay changes.
\<close>

definition is_replayed :: "ext \<Rightarrow> bench \<Rightarrow> commsArgs \<Rightarrow> bool" where
  "is_replayed X b c =
     (paramToCommName X (comms c) \<in> set (allowList b) \<and> getCommGroupInfo b c \<noteq> Inr (- 1))"

definition same_cfg :: "bench \<Rightarrow> bench \<Rightarrow> bool" where
  "same_cfg b b' =
     (allowList b' = allowList b \<and> shrink b' = shrink b \<and> is_blocking b' = is_blocking b
      \<and> backendFuncs b' = backendFuncs b \<and> groupRanks_params b' = groupRanks_params b
      \<and> groups (collectiveArgs b') = groups (collectiveArgs b))"

section \<open>The wording of the specification, for comparison\<close>

text \<open>
  The recorded world size \<open>W_rec\<close> of the auto-shrink rule: the record's world size,
  "falling back to \<open>len(in_split)\<close> or \<open>len(out_split)\<close>" for \<open>all_to_allv\<close> when it is
  unknown, and otherwise the live world size.
\<close>

definition split_or_empty :: "int list option \<Rightarrow> int list" where
  "split_or_empty s = (case s of Some l \<Rightarrow> l | None \<Rightarrow> [])"

definition spec_W_rec :: "string \<Rightarrow> int \<Rightarrow> commsArgs \<Rightarrow> int" where
  "spec_W_rec kind w_live c =
     (case worldSize c of
        Some w \<Rightarrow> w
      | None \<Rightarrow>
          if kind = ''all_to_allv'' \<and> split_or_empty (inSplit c) \<noteq> []
            then int (length (split_or_empty (inSplit c)))
          else if kind = ''all_to_allv'' \<and> split_or_empty (outSplit c) \<noteq> []
            then int (length (split_or_empty (outSplit c)))
          else w_live)"

text \<open>"Truncate splits to \<open>W_live\<close> entries."\<close>

definition spec_truncate :: "int \<Rightarrow> int list option \<Rightarrow> int list" where
  "spec_truncate w_live s = py_slice_to w_live (split_or_empty s)"

text \<open>"Round the agreed value down to the nearest multiple of \<open>W \<times> W\<close>."\<close>

definition spec_round_down :: "int \<Rightarrow> int \<Rightarrow> int" where
  "spec_round_down agreed w = (w * w) * (agreed div (w * w))"

section \<open>Inputs for the concrete runs\<close>

text \<open>
  Modelled from the spec: \<open>paramToCommName\<close> is declared in \<open>comms_utils\<close>. Section 4.2:
  kind names are "lowercased, mapped through a kind-alias table so
  \<open>alltoallv\<close>/\<open>all2allv\<close> \<rightarrow> \<open>all_to_allv\<close>".
\<close>

definition paramToCommName_spec :: "string \<Rightarrow> string" where
  "paramToCommName_spec name =
     (case dict_get [(''alltoallv'', ''all_to_allv''), (''all2allv'', ''all_to_allv'')]
             (py_lower name) of
        Some n \<Rightarrow> n
      | None \<Rightarrow> py_lower name)"

text \<open>
  Modelled from the spec: the dictionary built by \<open>backendFunctions.__init__\<close> is declared
  in \<open>comms_utils\<close>. It is given the collective kinds of section 3 that
  \<open>pytorch_dist_backend.py\<close> implements with the signature \<open>(collectiveArgs, retFlag, pair)\<close>.
\<close>

definition inherited_spec :: "(string \<times> backend_fn) list" where
  "inherited_spec =
     [(''all_to_all'', Collective), (''all_to_allv'', Collective),
      (''all_reduce'', Collective), (''broadcast'', Collective), (''gather'', Collective),
      (''all_gather'', Collective), (''all_gather_base'', Collective),
      (''reduce'', Collective), (''reduce_scatter'', Collective),
      (''reduce_scatter_base'', Collective), (''scatter'', Collective),
      (''barrier'', Collective)]"

text \<open>
  Two ranks contributing the same count to the \<open>all_reduce\<close> (the reduction is a sum);
  a collective measured at 5000 ns and a barrier at 2000 ns.
\<close>

definition ext0 :: ext where
  "ext0 = \<lparr>paramToCommName = paramToCommName_spec, all_reduce_value = (\<lambda>n. 2 * n),
            coll_interval_ns = (\<lambda>s. 5000), barrier_interval_ns = (\<lambda>s. 2000)\<rparr>"

text \<open>A record with every optional field \<open>None\<close>, and one with sizes.\<close>

definition mk_op :: "string \<Rightarrow> nat \<Rightarrow> commsArgs" where
  "mk_op kind n =
     \<lparr>comms = kind, seqnum = n, req = None, inMsgSize = None, outMsgSize = None,
      dtype = None, inSplit = None, outSplit = None, startTimeNs = None, pgId = None,
      groupRanks = None, worldSize = None, markerStack = None, root = None, eg_id = None\<rparr>"

definition mk_sized :: "string \<Rightarrow> nat \<Rightarrow> int \<Rightarrow> int \<Rightarrow> commsArgs" where
  "mk_sized kind n i out =
     (mk_op kind n)\<lparr>inMsgSize := Some i, outMsgSize := Some out, dtype := Some ''Int''\<rparr>"

text \<open>
  The bench as \<open>setBench\<close> leaves it on rank 0 of a world of the given size, with empty
  statistics: \<open>asyncOp\<close> is \<open>not is_blocking\<close>.
\<close>

definition mk_bench ::
  "commsArgs list \<Rightarrow> int \<Rightarrow> bool \<Rightarrow> bool \<Rightarrow> string list \<Rightarrow> string \<Rightarrow> bench" where
  "mk_bench tr world shr blocking allow policy =
     \<lparr>comms_trace = tr, shrink = shr, max_msg_cnt = int (length tr),
      is_blocking = blocking, is_dry_run = False, allowList = allow,
      rebalance_policy = policy, self_world_size = world,
      collInMsgSizes = [], collInUniMsgSizes = [], collOutMsgSizes = [],
      collOutUniMsgSizes = [], collLat = [], comms_blocks = [], traceWithPerf = [],
      totalCommsLatency = 0, groupRanks_params = [],
      collectiveArgs =
        \<lparr>group = WORLD, groups = [(Some 0, WORLD)], world_size = Some world,
         collectiveId = 0, asyncOp = (\<not> blocking), waitObj = [], waitObjIds = [],
         next_handle = 0, events = []\<rparr>,
      backendFuncs =
        \<lparr>be_world_size = world, be_global_rank = 0,
         inherited_collectiveFunc = inherited_spec\<rparr>,
      dispatched = [], logged = []\<rparr>"

text \<open>Projections of a result, for stating what a run returned.\<close>

definition prepared :: "ext \<Rightarrow> bench \<Rightarrow> commsArgs \<Rightarrow> commsArgs option" where
  "prepared X b c = (case prepComms X b c of Inl e \<Rightarrow> None | Inr (b1, c1) \<Rightarrow> Some c1)"

definition rebalanced :: "ext \<Rightarrow> bench \<Rightarrow> commsArgs \<Rightarrow> commsArgs option" where
  "rebalanced X b c = (case rebalanceSplit X b c of Inl e \<Rightarrow> None | Inr (b1, c1) \<Rightarrow> Some c1)"

definition outcome :: "(bench \<Rightarrow> 'a) \<Rightarrow> error + bench \<Rightarrow> error + 'a" where
  "outcome f r = (case r of Inl e \<Rightarrow> Inl e | Inr b \<Rightarrow> Inr (f b))"

definition prepared_group :: "ext \<Rightarrow> bench \<Rightarrow> commsArgs \<Rightarrow> pg option" where
  "prepared_group X b c =
     (case prepComms X b c of Inl e \<Rightarrow> None | Inr (b1, c1) \<Rightarrow> Some (group (collectiveArgs b1)))"

definition ran :: "ext \<Rightarrow> bench \<Rightarrow> string \<Rightarrow> commsArgs \<Rightarrow> bench option" where
  "ran X b k c = (case runComms X b k c of Inl e \<Rightarrow> None | Inr (b1, l, g) \<Rightarrow> Some b1)"

definition warmed :: "ext \<Rightarrow> bench \<Rightarrow> commsArgs \<Rightarrow> commsArgs option" where
  "warmed X b c = (case warmUpOne X b c of Inl e \<Rightarrow> None | Inr (b1, c1) \<Rightarrow> Some c1)"

section \<open>Facts about the backend and the preparation step\<close>

lemma wait_all_filter: "wait_all ws = map Await (List.map_filter id ws)"
  by (induction ws rule: wait_all.induct) simp_all

lemma complete_accel_ops_fields [simp]:
  "waitObj (complete_accel_ops d ca) = []"
  "waitObjIds (complete_accel_ops d ca) = []"
  "groups (complete_accel_ops d ca) = groups ca"
  "world_size (complete_accel_ops d ca) = world_size ca"
  "group (complete_accel_ops d ca) = group ca"
  "asyncOp (complete_accel_ops d ca) = asyncOp ca"
  "collectiveId (complete_accel_ops d ca) = collectiveId ca"
  by (simp_all add: complete_accel_ops_def device_sync_def Let_def)

lemma collective_fields [simp]:
  "groups (fst (collective k r ca)) = groups ca"
  "world_size (fst (collective k r ca)) = world_size ca"
  "group (fst (collective k r ca)) = group ca"
  "asyncOp (fst (collective k r ca)) = asyncOp ca"
  "collectiveId (fst (collective k r ca)) = collectiveId ca"
  by (simp_all add: collective_def Let_def)

lemma wait_fields [simp]:
  "groups (wait ca) = groups ca"
  "world_size (wait ca) = world_size ca"
  "group (wait ca) = group ca"
  "asyncOp (wait ca) = asyncOp ca"
  "collectiveId (wait ca) = collectiveId ca"
  by (simp_all add: wait_def complete_single_op_def device_sync_def split: list.splits option.splits)

lemma sync_barrier_fields [simp]:
  "waitObj (sync_barrier ca) = []"
  "waitObjIds (sync_barrier ca) = []"
  "groups (sync_barrier ca) = groups ca"
  "world_size (sync_barrier ca) = world_size ca"
  "group (sync_barrier ca) = group ca"
  "asyncOp (sync_barrier ca) = asyncOp ca"
  "collectiveId (sync_barrier ca) = collectiveId ca"
  by (simp_all add: sync_barrier_def)

lemma call_backend_fields:
  assumes "call_backend f k r ca = Inr (ca', h)"
  shows "groups ca' = groups ca" "world_size ca' = world_size ca" "group ca' = group ca"
    "asyncOp ca' = asyncOp ca" "collectiveId ca' = collectiveId ca"
  using assms by (cases f; auto simp: prod_eq_iff)+

lemma py_slice_to_Nil [simp]: "py_slice_to n [] = []"
  by (simp add: py_slice_to_def)

lemma prepComms_group_shrink:
  "shrink b \<Longrightarrow> prepComms_group b c =
     Inr (b\<lparr>collectiveArgs := (collectiveArgs b)\<lparr>group := WORLD\<rparr>,
            self_world_size := be_world_size (backendFuncs b)\<rparr>)"
  by (simp add: prepComms_group_def get_default_group_def get_world_size_def)

lemma real_world_size_spec:
  assumes "kind = ''all_to_allv'' \<and> worldSize c = None \<longrightarrow> inSplit c \<noteq> None \<and> outSplit c \<noteq> None"
  shows "real_world_size_of kind (Some wl) c = Inr (Some (spec_W_rec kind wl c))"
  using assms
  by (auto simp: real_world_size_of_def spec_W_rec_def split_or_empty_def split: option.splits)

lemma take_rejoin: "take k xs @ drop (length (take k xs)) xs = xs"
  by (cases "k \<le> length xs") (simp_all add: min_def)

lemma py_slice_to_rejoin: "py_slice_to n xs @ drop (length (py_slice_to n xs)) xs = xs"
  by (cases "0 \<le> n") (simp_all only: py_slice_to_def take_rejoin if_True if_False)

lemma prepComms_frame:
  assumes "prepComms X b c = Inr (b1, c1)"
  shows "\<exists>g w s. b1 = b\<lparr>collectiveArgs := (collectiveArgs b)\<lparr>group := g, world_size := w\<rparr>,
                          self_world_size := s\<rparr>"
proof -
  have triv: "b = b\<lparr>collectiveArgs := (collectiveArgs b)\<lparr>group := group (collectiveArgs b),
        world_size := world_size (collectiveArgs b)\<rparr>, self_world_size := self_world_size b\<rparr>"
    by simp
  have g: "\<And>b1. prepComms_group b c = Inr b1 \<Longrightarrow>
     \<exists>g w s. b1 = b\<lparr>collectiveArgs := (collectiveArgs b)\<lparr>group := g, world_size := w\<rparr>,
                          self_world_size := s\<rparr>"
  proof -
    fix b1 assume a: "prepComms_group b c = Inr b1"
    show "\<exists>g w s. b1 = b\<lparr>collectiveArgs := (collectiveArgs b)\<lparr>group := g, world_size := w\<rparr>,
                          self_world_size := s\<rparr>"
    proof (cases "pgId c \<noteq> None \<and> \<not> shrink b")
      case True
      then obtain g where "b1 = b\<lparr>collectiveArgs :=
          (collectiveArgs b)\<lparr>group := g, world_size := worldSize c\<rparr>\<rparr>"
        using a by (auto simp: prepComms_group_def split: option.splits)
      then have "b1 = b\<lparr>collectiveArgs := (collectiveArgs b)\<lparr>group := g, world_size := worldSize c\<rparr>,
                          self_world_size := self_world_size b\<rparr>" by simp
      then show ?thesis by blast
    next
      case False
      then have "b1 = b\<lparr>collectiveArgs := (collectiveArgs b)\<lparr>group := get_default_group (backendFuncs b)\<rparr>,
               self_world_size := get_world_size (backendFuncs b)\<rparr>"
        using a by (auto simp: prepComms_group_def)
      then have "b1 = b\<lparr>collectiveArgs := (collectiveArgs b)\<lparr>group := get_default_group (backendFuncs b),
               world_size := world_size (collectiveArgs b)\<rparr>,
               self_world_size := get_world_size (backendFuncs b)\<rparr>" by simp
      then show ?thesis by blast
    qed
  qed
  show ?thesis
  proof (cases "paramToCommName X (comms c) \<in> {''wait'', ''barrier''}")
    case True
    then have "b1 = b" using assms by (simp add: prepComms_def)
    then show ?thesis using triv by metis
  next
    case False
    then obtain b2 where "prepComms_group b c = Inr b2" and "b1 = b2"
      using assms by (auto simp: prepComms_def Let_def split: sum.splits if_splits)
    then show ?thesis using g by blast
  qed
qed

lemma prepComms_record:
  assumes "prepComms X b c = Inr (b1, c1)"
  shows "comms c1 = comms c" "seqnum c1 = seqnum c" "pgId c1 = pgId c"
    "worldSize c1 = worldSize c" "req c1 = req c" "markerStack c1 = markerStack c"
proof -
  have s: "\<And>k w c1. prepComms_shrink k w c = Inr c1 \<Longrightarrow>
     comms c1 = comms c \<and> seqnum c1 = seqnum c \<and> pgId c1 = pgId c \<and>
     worldSize c1 = worldSize c \<and> req c1 = req c \<and> markerStack c1 = markerStack c"
    by (auto simp: prepComms_shrink_def Let_def split: sum.splits if_splits)
  have "c1 = c \<or> (\<exists>k w. prepComms_shrink k w c = Inr c1)"
    using assms by (auto simp: prepComms_def Let_def split: sum.splits if_splits)
  then show "comms c1 = comms c" "seqnum c1 = seqnum c" "pgId c1 = pgId c"
    "worldSize c1 = worldSize c" "req c1 = req c" "markerStack c1 = markerStack c"
    using s by blast+
qed

lemma warmUpOne_unknown_policy:
  assumes "warmUpOne X b c = Inr (b1, c1)" and "rebalance_policy b \<noteq> ''equal''"
  shows "c1 = c \<and> rebalance_policy b1 = rebalance_policy b"
proof (cases "getCommGroupInfo b c")
  case (Inl e)
  then show ?thesis using assms by (simp add: warmUpOne_def Let_def)
next
  case (Inr gr)
  show ?thesis
  proof (cases "paramToCommName X (comms c) \<notin> set (allowList b) \<or> gr = - 1")
    case True
    then show ?thesis using assms Inr by (auto simp: warmUpOne_def Let_def)
  next
    case False
    then obtain bp cp where p: "prepComms X b c = Inr (bp, cp)"
      using assms Inr by (auto simp: warmUpOne_def Let_def split: sum.splits)
    from prepComms_frame [OF p] have pol: "rebalance_policy bp = rebalance_policy b" by auto
    let ?b2 = "bp\<lparr>collectiveArgs := (collectiveArgs bp)\<lparr>world_size :=
                                 (if pgId cp = None \<or> shrink bp
                                  then Some (get_world_size (backendFuncs bp))
                                  else worldSize cp)\<rparr>\<rparr>"
    have rb: "rebalanceSplit X ?b2 c =
        Inr (?b2\<lparr>logged := logged ?b2 @ [''Unsupported balancing policy. Ignoring.'']\<rparr>, c)"
      using assms(2) pol by (simp add: rebalanceSplit_def)
    show ?thesis
      using assms(1) Inr False p pol prepComms_frame
      by (auto simp: warmUpOne_def Let_def rb split: sum.splits if_splits option.splits
               dest!: prepComms_frame)
  qed
qed

lemma warmUpLoop_unknown_policy:
  "warmUpLoop X b cs = Inr (b1, cs1) \<Longrightarrow> rebalance_policy b \<noteq> ''equal'' \<Longrightarrow> cs1 = cs"
proof (induction cs arbitrary: b b1 cs1)
  case Nil
  then show ?case by simp
next
  case (Cons c cs)
  from Cons.prems(1) obtain b2 c2 b3 cs3 where
    o: "warmUpOne X b c = Inr (b2, c2)" and l: "warmUpLoop X b2 cs = Inr (b3, cs3)"
    and e: "cs1 = c2 # cs3"
    by (auto split: sum.splits)
  from warmUpOne_unknown_policy [OF o Cons.prems(2)]
  have "c2 = c" "rebalance_policy b2 \<noteq> ''equal''" using Cons.prems(2) by auto
  with Cons.IH [OF l] e show ?case by simp
qed

lemma prepComms_world_size_shrink:
  assumes "prepComms X b c = Inr (b1, c1)" and "shrink b"
  shows "world_size (collectiveArgs b1) = world_size (collectiveArgs b)"
    and "group (collectiveArgs b1) = (if paramToCommName X (comms c) \<in> {''wait'', ''barrier''}
           then group (collectiveArgs b) else WORLD)"
  using assms
  by (auto simp: prepComms_def prepComms_group_shrink Let_def split: sum.splits if_splits)

lemma create_groups_oversize:
  assumes "(k, Some r) \<in> set tbl" and "world < int (length r)"
    and "\<forall>(k', v) \<in> set tbl. v \<noteq> None"
  shows "create_groups world tbl gs = Inr []"
  using assms
proof (induction tbl arbitrary: gs)
  case Nil
  then show ?case by simp
next
  case (Cons e tbl)
  obtain k' v where e: "e = (k', v)" by (cases e)
  with Cons.prems(3) obtain r' where v: "v = Some r'" by auto
  show ?case
  proof (cases "world < int (length r')")
    case True
    then show ?thesis by (simp add: e v)
  next
    case False
    then have "(k, Some r) \<in> set tbl" using Cons.prems(1,2) e v by auto
    then have "create_groups world tbl gs' = Inr []" for gs'
      using Cons.IH Cons.prems(2,3) by auto
    then show ?thesis using False by (simp add: e v)
  qed
qed

lemma py_round_div_dist:
  assumes "0 < b"
  shows "2 * \<bar>b * py_round_div a b - a\<bar> \<le> b"
proof -
  have e: "a = b * (a div b) + a mod b" by simp
  have m: "0 \<le> a mod b" "a mod b < b" using assms by simp_all
  define q where "q = a div b"
  define r where "r = a mod b"
  have a: "a = b * q + r" using e q_def r_def by simp
  have "b * py_round_div a b - a = (if 2 * r < b then - r
         else if b < 2 * r then b - r else if even q then - r else b - r)"
    unfolding py_round_div_def Let_def q_def [symmetric] r_def [symmetric]
    by (simp add: a algebra_simps)
  then show ?thesis using m r_def by (auto split: if_splits)
qed

lemma py_round_div_tie:
  assumes "0 < b" and "2 * \<bar>b * py_round_div a b - a\<bar> = b"
  shows "even (py_round_div a b)"
proof -
  define q where "q = a div b"
  define r where "r = a mod b"
  have m: "0 \<le> r" "r < b" using assms(1) by (simp_all add: r_def)
  have a: "a = b * q + r" using q_def r_def by simp
  have d: "b * py_round_div a b - a = (if 2 * r < b then - r
         else if b < 2 * r then b - r else if even q then - r else b - r)"
    unfolding py_round_div_def Let_def q_def [symmetric] r_def [symmetric]
    by (simp add: a algebra_simps)
  have "\<not> 2 * r < b"
  proof
    assume l: "2 * r < b"
    then have "b * py_round_div a b - a = - r" using d by simp
    then show False using assms(2) m l by simp
  qed
  moreover have "\<not> b < 2 * r"
  proof
    assume l: "b < 2 * r"
    then have "b * py_round_div a b - a = b - r" using d by simp
    then show False using assms(2) m l by simp
  qed
  ultimately show ?thesis
    unfolding py_round_div_def Let_def q_def [symmetric] r_def [symmetric] by simp
qed

lemma rebalanceSplit_equal_result:
  assumes "rebalance_policy b = ''equal''" and "rebalanceSplit X b c = Inr (b', c')"
  shows "\<exists>n w. inMsgSize c = Some n \<and> world_size (collectiveArgs b) = Some w \<and> w \<noteq> 0
     \<and> c' = c\<lparr>inMsgSize := Some ((w * w) * py_round_div (all_reduce_value X n) (w * w) div w),
              outMsgSize := Some ((w * w) * py_round_div (all_reduce_value X n) (w * w) div w),
              inSplit := Some (replicate (nat w)
                 ((w * w) * py_round_div (all_reduce_value X n) (w * w) div w div w)),
              outSplit := Some (replicate (nat w)
                 ((w * w) * py_round_div (all_reduce_value X n) (w * w) div w div w))\<rparr>"
proof -
  from assms obtain n f ca1 r where n: "inMsgSize c = Some n"
    and cb: "call_backend f ''all_reduce'' False (collectiveArgs b) = Inr (ca1, r)"
    by (auto simp: rebalanceSplit_def split: option.splits sum.splits)
  have ws: "world_size (complete_accel_ops True ca1) = world_size (collectiveArgs b)"
    using call_backend_fields(2) [OF cb] by simp
  from assms n obtain f' ca1' r' where
    cb': "call_backend f' ''all_reduce'' False (collectiveArgs b) = Inr (ca1', r')"
    and rest: "(case world_size (complete_accel_ops True ca1') of
           None \<Rightarrow> Inl TypeError
         | Some w \<Rightarrow>
             if w * w = 0 then Inl ZeroDivisionError
             else
               (let newInSize = (w * w) * py_round_div (all_reduce_value X n) (w * w);
                    inSz = newInSize div w;
                    split = replicate (nat w) (inSz div w)
                in Inr (b\<lparr>collectiveArgs := complete_accel_ops True ca1'\<rparr>,
                        c\<lparr>inMsgSize := Some inSz, outMsgSize := Some inSz,
                          inSplit := Some split, outSplit := Some split\<rparr>))) = Inr (b', c')"
    by (auto simp: rebalanceSplit_def Let_def split: option.splits sum.splits)
  have ws': "world_size (complete_accel_ops True ca1') = world_size (collectiveArgs b)"
    using call_backend_fields(2) [OF cb'] by simp
  from rest ws' show ?thesis
    using n by (auto simp: Let_def split: option.splits if_splits)
qed

lemmas run_defs =
  warmUpOne_def replayOne_def runComms_def getCommGroupInfo_def prepComms_def
  prepComms_group_def prepComms_shrink_def real_world_size_of_def py_floordiv_def py_mul_def
  rebalanceSplit_def collectiveFunc_def inherited_spec_def call_backend.simps
  collective_def complete_accel_ops_def complete_single_op_def wait_def sync_barrier_def
  device_sync_def py_slice_to_def py_round_div_def get_default_group_def get_world_size_def
  dict_append_def dict_add_def dict_keys_def
  mk_bench_def mk_sized_def mk_op_def Let_def

lemma p2c_spec [simp]:
  "paramToCommName ext0 ''all_to_allv'' = ''all_to_allv''"
  "paramToCommName ext0 ''all_to_all'' = ''all_to_all''"
  "paramToCommName ext0 ''all_reduce'' = ''all_reduce''"
  "paramToCommName ext0 ''all_gather'' = ''all_gather''"
  "paramToCommName ext0 ''wait'' = ''wait''"
  "paramToCommName ext0 ''exotic_op'' = ''exotic_op''"
  by (simp_all add: ext0_def paramToCommName_spec_def py_lower_def lower_char_def)

lemma extractOne_seqnum: "extractOne X n r = Inr c \<Longrightarrow> seqnum c = n"
  by (auto simp: extractOne_def Let_def split: option.splits if_splits sum.splits prod.splits)

lemma extractLoop_length_seq:
  "extractLoop X n tr = Inr out \<Longrightarrow>
     length out = length tr \<and> (\<forall>i < length tr. seqnum (out ! i) = n + i)"
proof (induction tr arbitrary: n out)
  case Nil
  then show ?case by simp
next
  case (Cons r tr)
  from Cons.prems obtain c rest where o: "extractOne X n r = Inr c"
    and l: "extractLoop X (Suc n) tr = Inr rest" and e: "out = c # rest"
    by (auto split: sum.splits)
  from Cons.IH [OF l] have ih: "length rest = length tr"
    "\<forall>i < length tr. seqnum (rest ! i) = Suc n + i" by simp_all
  show ?case
  proof (intro conjI allI impI)
    show "length out = length (r # tr)" using e ih(1) by simp
    fix i assume "i < length (r # tr)"
    then show "seqnum (out ! i) = n + i"
      using e ih(2) extractOne_seqnum [OF o] by (cases i) simp_all
  qed
qed

lemma same_cfg_refl [simp]: "same_cfg b b"
  by (simp add: same_cfg_def)

lemma same_cfg_trans: "same_cfg a b \<Longrightarrow> same_cfg b c \<Longrightarrow> same_cfg a c"
  by (simp add: same_cfg_def)

lemma same_cfg_filter:
  assumes "same_cfg b b'"
  shows "getCommGroupInfo b' c = getCommGroupInfo b c" "is_replayed X b' c = is_replayed X b c"
  using assms
  by (simp_all add: same_cfg_def getCommGroupInfo_def is_replayed_def cong: option.case_cong)

lemma prepComms_same_cfg:
  assumes "prepComms X b c = Inr (b1, c1)"
  shows "same_cfg b b1" "dispatched b1 = dispatched b" "traceWithPerf b1 = traceWithPerf b"
    "collLat b1 = collLat b" "comms_blocks b1 = comms_blocks b"
    "totalCommsLatency b1 = totalCommsLatency b"
  using prepComms_frame [OF assms] by (auto simp: same_cfg_def)

lemma dict_get_keys: "(k \<in> set (dict_keys d)) = (dict_get d k \<noteq> None)"
  by (induction d) (auto simp: dict_keys_def)

lemma runComms_shape:
  assumes "runComms X b collName c = Inr (b', lat, glob)"
  shows "\<exists>ca lg. b' = b\<lparr>dispatched := dispatched b @
             (if collName \<in> set (dict_keys (collectiveFunc (backendFuncs b)))
              then [seqnum c] else []),
           logged := lg, collectiveArgs := ca\<rparr>
       \<and> groups ca = groups (collectiveArgs b)
       \<and> lat = real (coll_interval_ns X (seqnum c)) / 1000
       \<and> glob = (if is_blocking b
                  then lat + real (barrier_interval_ns X (seqnum c)) / 1000 else lat)"
proof -
  let ?ca1 = "if is_blocking b then sync_barrier (collectiveArgs b) else collectiveArgs b"
  let ?D = "dispatched b @ (if collName \<in> set (dict_keys (collectiveFunc (backendFuncs b)))
              then [seqnum c] else [])"
  have g1: "groups ?ca1 = groups (collectiveArgs b)" by simp
  obtain b1 ca3 bound where
    d: "(case dict_get (collectiveFunc (backendFuncs b)) collName of
               Some f \<Rightarrow>
                 (let ca2 = (case req c of
                               Some r \<Rightarrow> ?ca1\<lparr>collectiveId := r\<rparr>
                             | None \<Rightarrow> ?ca1)
                  in case call_backend f collName True ca2 of
                       Inl e \<Rightarrow> Inl e
                     | Inr (ca3, retObj) \<Rightarrow>
                         Inr (b\<lparr>dispatched := dispatched b @ [seqnum c]\<rparr>,
                              ca3, Some retObj))
             | None \<Rightarrow>
                 Inr (b\<lparr>logged := logged b @ [''Unsupported collective name: '' @ collName
                        @ ''. Skipping replaying the collective'']\<rparr>,
                      ?ca1, None)) = Inr (b1, ca3, bound)"
    and rest: "(case (if req c \<noteq> None \<and> \<not> is_blocking b1 \<and> collName \<noteq> ''wait'' then
                     (case (req c, bound) of
                        (Some r, Some retObj) \<Rightarrow>
                          Inr ((complete_accel_ops (is_blocking b1) ca3)
                             \<lparr>waitObjIds := dict_set
                                (waitObjIds (complete_accel_ops (is_blocking b1) ca3)) r retObj\<rparr>)
                      | _ \<Rightarrow> Inl UnboundLocalError)
                   else Inr (complete_accel_ops (is_blocking b1) ca3)) of
               Inl e \<Rightarrow> Inl e
             | Inr ca5 \<Rightarrow>
                 (if is_blocking b1 then
                       Inr (b1\<lparr>collectiveArgs := sync_barrier ca5\<rparr>,
                            real (coll_interval_ns X (seqnum c)) / 1000,
                            real (coll_interval_ns X (seqnum c)) / 1000
                              + real (barrier_interval_ns X (seqnum c)) / 1000)
                     else Inr (b1\<lparr>collectiveArgs := ca5\<rparr>,
                            real (coll_interval_ns X (seqnum c)) / 1000,
                            real (coll_interval_ns X (seqnum c)) / 1000))) = Inr (b', lat, glob)"
    using assms unfolding runComms_def Let_def
    by (auto split: sum.splits)
  have b1: "\<exists>lg. b1 = b\<lparr>dispatched := ?D, logged := lg\<rparr>" and g3: "groups ca3 = groups (collectiveArgs b)"
  proof -
    show "\<exists>lg. b1 = b\<lparr>dispatched := ?D, logged := lg\<rparr>"
    proof (cases "dict_get (collectiveFunc (backendFuncs b)) collName")
      case None
      then have "b1 = b\<lparr>dispatched := ?D, logged := logged b @ [''Unsupported collective name: '' @ collName
                        @ ''. Skipping replaying the collective'']\<rparr>"
        using d by (simp add: dict_get_keys)
      then show ?thesis by blast
    next
      case (Some f)
      then have "b1 = b\<lparr>dispatched := dispatched b @ [seqnum c]\<rparr>"
        using d by (auto simp: Let_def split: sum.splits)
      then have "b1 = b\<lparr>dispatched := ?D, logged := logged b\<rparr>"
        using Some by (simp add: dict_get_keys)
      then show ?thesis by blast
    qed
    show "groups ca3 = groups (collectiveArgs b)"
    proof (cases "dict_get (collectiveFunc (backendFuncs b)) collName")
      case None
      then show ?thesis using d g1 by auto
    next
      case (Some f)
      then obtain ca2 r where "call_backend f collName True ca2 = Inr (ca3, r)"
        and "groups ca2 = groups (collectiveArgs b)"
        using d by (auto simp: Let_def split: sum.splits option.splits if_splits)
      then show ?thesis using call_backend_fields(1) by metis
    qed
  qed
  then obtain lg where b1': "b1 = b\<lparr>dispatched := ?D, logged := lg\<rparr>" by blast
  have blk: "is_blocking b1 = is_blocking b" using b1' by simp
  let ?store = "(if req c \<noteq> None \<and> \<not> is_blocking b1 \<and> collName \<noteq> ''wait'' then
                     (case (req c, bound) of
                        (Some r, Some retObj) \<Rightarrow>
                          Inr ((complete_accel_ops (is_blocking b1) ca3)
                             \<lparr>waitObjIds := dict_set
                                (waitObjIds (complete_accel_ops (is_blocking b1) ca3)) r retObj\<rparr>)
                      | _ \<Rightarrow> Inl UnboundLocalError)
                   else Inr (complete_accel_ops (is_blocking b1) ca3))"
  obtain ca5 where st: "?store = Inr ca5"
    using rest by (cases ?store) simp_all
  have c5: "groups ca5 = groups (collectiveArgs b)"
    using st g3 by (auto split: if_splits option.splits)
  have fin: "(if is_blocking b then
                       Inr (b1\<lparr>collectiveArgs := sync_barrier ca5\<rparr>,
                            real (coll_interval_ns X (seqnum c)) / 1000,
                            real (coll_interval_ns X (seqnum c)) / 1000
                              + real (barrier_interval_ns X (seqnum c)) / 1000)
                     else Inr (b1\<lparr>collectiveArgs := ca5\<rparr>,
                            real (coll_interval_ns X (seqnum c)) / 1000,
                            real (coll_interval_ns X (seqnum c)) / 1000)) = Inr (b', lat, glob)"
    using rest [unfolded st] by (simp add: blk split: if_splits)
  show ?thesis
  proof (cases "is_blocking b")
    case True
    then have "b' = b\<lparr>dispatched := ?D, logged := lg, collectiveArgs := sync_barrier ca5\<rparr>"
      and "lat = real (coll_interval_ns X (seqnum c)) / 1000"
      and "glob = lat + real (barrier_interval_ns X (seqnum c)) / 1000"
      using fin b1' by auto
    moreover have "groups (sync_barrier ca5) = groups (collectiveArgs b)" using c5 by simp
    ultimately show ?thesis using True
      by (intro exI [where x = "sync_barrier ca5"] exI [where x = lg]) simp
  next
    case False
    then have "b' = b\<lparr>dispatched := ?D, logged := lg, collectiveArgs := ca5\<rparr>"
      and "lat = real (coll_interval_ns X (seqnum c)) / 1000"
      and "glob = lat"
      using fin b1' by auto
    then show ?thesis using False c5
      by (intro exI [where x = ca5] exI [where x = lg]) simp
  qed
qed


lemma runComms_result:
  assumes "runComms X b collName c = Inr (b', lat, glob)"
  shows "same_cfg b b'"
    and "traceWithPerf b' = traceWithPerf b"
    and "collLat b' = collLat b" and "comms_blocks b' = comms_blocks b"
    and "totalCommsLatency b' = totalCommsLatency b"
    and "dispatched b' = dispatched b @
           (if collName \<in> set (dict_keys (collectiveFunc (backendFuncs b))) then [seqnum c] else [])"
    and "lat = real (coll_interval_ns X (seqnum c)) / 1000"
    and "glob = (if is_blocking b then lat + real (barrier_interval_ns X (seqnum c)) / 1000 else lat)"
  using runComms_shape [OF assms] by (auto simp: same_cfg_def)

lemma replayOne_skip:
  assumes "getCommGroupInfo b c = Inr g" and "\<not> is_replayed X b c"
  shows "replayOne X b c = Inr (b, c)"
  using assms by (auto simp: replayOne_def is_replayed_def Let_def)

lemma replayOne_result:
  assumes "replayOne X b c = Inr (b', c')"
  shows "same_cfg b b'"
    and "comms c' = comms c" and "seqnum c' = seqnum c"
    and "dispatched b' = dispatched b @
           (if is_replayed X b c \<and> paramToCommName X (comms c)
                 \<in> set (dict_keys (collectiveFunc (backendFuncs b)))
            then [seqnum c] else [])"
    and "\<exists>rs. traceWithPerf b' = traceWithPerf b @ rs
          \<and> map (seqnum \<circ> rc_comm) rs = (if is_replayed X b c then [seqnum c] else [])
          \<and> (\<forall>r \<in> set rs.
                latency_us r = real (coll_interval_ns X (seqnum c)) / 1000
              \<and> global_latency_us r =
                  (if is_blocking b
                   then latency_us r + real (barrier_interval_ns X (seqnum c)) / 1000
                   else latency_us r))"
proof -
  obtain g where g: "getCommGroupInfo b c = Inr g"
    using assms by (cases "getCommGroupInfo b c") (simp_all add: replayOne_def Let_def)
  have all: "same_cfg b b' \<and> comms c' = comms c \<and> seqnum c' = seqnum c
    \<and> dispatched b' = dispatched b @
           (if is_replayed X b c \<and> paramToCommName X (comms c)
                 \<in> set (dict_keys (collectiveFunc (backendFuncs b)))
            then [seqnum c] else [])
    \<and> (\<exists>rs. traceWithPerf b' = traceWithPerf b @ rs
          \<and> map (seqnum \<circ> rc_comm) rs = (if is_replayed X b c then [seqnum c] else [])
          \<and> (\<forall>r \<in> set rs.
                latency_us r = real (coll_interval_ns X (seqnum c)) / 1000
              \<and> global_latency_us r =
                  (if is_blocking b
                   then latency_us r + real (barrier_interval_ns X (seqnum c)) / 1000
                   else latency_us r)))"
  proof (cases "is_replayed X b c")
    case False
    then have "replayOne X b c = Inr (b, c)" using g by (rule replayOne_skip [rotated])
    then have "b' = b" "c' = c" using assms by simp_all
    then show ?thesis using False by simp
  next
    case True
    then have pass: "\<not> (paramToCommName X (comms c) \<notin> set (allowList b) \<or> g = - 1)"
      using g by (simp add: is_replayed_def)
    from assms g pass obtain b1 c1 where p: "prepComms X b c = Inr (b1, c1)"
      by (auto simp: replayOne_def Let_def split: sum.splits)
    from assms g pass p obtain b2 lat glob where
      r: "runComms X b1 (paramToCommName X (comms c)) c1 = Inr (b2, lat, glob)"
      by (auto simp: replayOne_def Let_def split: sum.splits)
    from assms g pass p r obtain cl where
      cl: "dict_append (collLat b2) (paramToCommName X (comms c)) lat = Inr cl"
      by (auto simp: replayOne_def Let_def split: sum.splits)
    define ms where
      "ms = (if 0 < length (case markerStack c of Some m \<Rightarrow> m | None \<Rightarrow> [])
           then join_space (case markerStack c of Some m \<Rightarrow> m | None \<Rightarrow> [])
           else ''Unamed/Unknown'')"
    let ?r = "\<lparr>rc_comm = c1, marker_stack = ms, latency_us = lat,
        global_latency_us = glob\<rparr>"
    have unf: "replayOne X b c =
        (case append_blocks (case markerStack c of Some m \<Rightarrow> m | None \<Rightarrow> []) ?r
                (comms_blocks b2) of
           Inl e \<Rightarrow> Inl e
         | Inr cb \<Rightarrow>
             Inr (b2\<lparr>collLat := cl, totalCommsLatency := totalCommsLatency b2 + lat,
                   comms_blocks := cb, traceWithPerf := traceWithPerf b2 @ [?r]\<rparr>, c1))"
      using g pass p r cl unfolding ms_def by (simp add: replayOne_def Let_def)
    let ?ab = "append_blocks (case markerStack c of Some m \<Rightarrow> m | None \<Rightarrow> []) ?r
                (comms_blocks b2)"
    have "\<exists>cb. ?ab = Inr cb"
      using assms unfolding unf by (cases ?ab) simp_all
    then obtain cb where ab: "?ab = Inr cb" ..
    have eq: "Inr (b2\<lparr>collLat := cl, totalCommsLatency := totalCommsLatency b2 + lat,
                   comms_blocks := cb, traceWithPerf := traceWithPerf b2 @ [?r]\<rparr>, c1)
              = (Inr (b', c') :: error + bench \<times> commsArgs)"
      using assms unfolding unf ab by (simp only: sum.case)
    have fin: "b' = b2\<lparr>collLat := cl, totalCommsLatency := totalCommsLatency b2 + lat,
                   comms_blocks := cb, traceWithPerf := traceWithPerf b2 @ [?r]\<rparr>"
        and c': "c' = c1"
      using eq unfolding sum.inject prod.inject by blast+
    note pc = prepComms_same_cfg [OF p] and pr = prepComms_record [OF p]
      and rr = runComms_result [OF r]
    have cfg: "same_cfg b b'"
      using same_cfg_trans [OF pc(1) rr(1)] fin by (simp add: same_cfg_def)
    have bf: "backendFuncs b1 = backendFuncs b" "is_blocking b1 = is_blocking b"
      using pc(1) by (simp_all add: same_cfg_def)
    have d: "dispatched b' = dispatched b @
           (if paramToCommName X (comms c) \<in> set (dict_keys (collectiveFunc (backendFuncs b)))
            then [seqnum c] else [])"
      using fin rr(6) pc(2) pr(2) bf by simp
    have t: "traceWithPerf b' = traceWithPerf b @ [?r]"
      using fin rr(2) pc(3) by simp
    have l: "lat = real (coll_interval_ns X (seqnum c)) / 1000"
      "glob = (if is_blocking b
                   then lat + real (barrier_interval_ns X (seqnum c)) / 1000
                   else lat)"
      using rr(7,8) pr(2) bf by simp_all
    have "\<exists>rs. traceWithPerf b' = traceWithPerf b @ rs
          \<and> map (seqnum \<circ> rc_comm) rs = (if is_replayed X b c then [seqnum c] else [])
          \<and> (\<forall>r \<in> set rs.
                latency_us r = real (coll_interval_ns X (seqnum c)) / 1000
              \<and> global_latency_us r =
                  (if is_blocking b
                   then latency_us r + real (barrier_interval_ns X (seqnum c)) / 1000
                   else latency_us r))"
      using t True pr(2) l(2) unfolding l(1) [symmetric]
      by (intro exI [where x = "[?r]"]) simp
    then show ?thesis using cfg c' pr(1,2) d True by simp
  qed
  from all show "same_cfg b b'" by blast
  from all show "comms c' = comms c" by blast
  from all show "seqnum c' = seqnum c" by blast
  from all show "dispatched b' = dispatched b @
           (if is_replayed X b c \<and> paramToCommName X (comms c)
                 \<in> set (dict_keys (collectiveFunc (backendFuncs b)))
            then [seqnum c] else [])" by blast
  from all show "\<exists>rs. traceWithPerf b' = traceWithPerf b @ rs
          \<and> map (seqnum \<circ> rc_comm) rs = (if is_replayed X b c then [seqnum c] else [])
          \<and> (\<forall>r \<in> set rs.
                latency_us r = real (coll_interval_ns X (seqnum c)) / 1000
              \<and> global_latency_us r =
                  (if is_blocking b
                   then latency_us r + real (barrier_interval_ns X (seqnum c)) / 1000
                   else latency_us r))" by blast
qed

lemma replayLoop_result:
  "replayLoop X b cs = Inr (b', cs') \<Longrightarrow>
     same_cfg b b'
   \<and> dispatched b' = dispatched b @ map seqnum (filter (\<lambda>c. is_replayed X b c
          \<and> paramToCommName X (comms c) \<in> set (dict_keys (collectiveFunc (backendFuncs b)))) cs)
   \<and> (\<exists>rs. traceWithPerf b' = traceWithPerf b @ rs
         \<and> map (seqnum \<circ> rc_comm) rs = map seqnum (filter (is_replayed X b) cs)
         \<and> (\<forall>r \<in> set rs.
               latency_us r = real (coll_interval_ns X (seqnum (rc_comm r))) / 1000
             \<and> global_latency_us r =
                 (if is_blocking b
                  then latency_us r + real (barrier_interval_ns X (seqnum (rc_comm r))) / 1000
                  else latency_us r)))"
proof (induction cs arbitrary: b b' cs')
  case Nil
  then show ?case by simp
next
  case (Cons c cs)
  from Cons.prems obtain b1 c1 b2 cs2 where o: "replayOne X b c = Inr (b1, c1)"
    and l: "replayLoop X b1 cs = Inr (b2, cs2)" and e: "b' = b2"
    by (auto split: sum.splits)
  note ro = replayOne_result [OF o]
  note ih = Cons.IH [OF l]
  have cfg1: "same_cfg b b1" by (rule ro(1))
  have f: "is_replayed X b1 = is_replayed X b"
    using same_cfg_filter(2) [OF cfg1] by (intro ext) simp
  have bf: "backendFuncs b1 = backendFuncs b" "is_blocking b1 = is_blocking b"
    using cfg1 by (simp_all add: same_cfg_def)
  have cfg: "same_cfg b b'" using same_cfg_trans [OF cfg1] ih e by blast
  have d: "dispatched b' = dispatched b @ map seqnum (filter (\<lambda>c. is_replayed X b c
          \<and> paramToCommName X (comms c) \<in> set (dict_keys (collectiveFunc (backendFuncs b))))
            (c # cs))"
    using ih ro(4) e by (simp add: f bf)
  from ro(5) obtain rs1 where r1: "traceWithPerf b1 = traceWithPerf b @ rs1"
    "map (seqnum \<circ> rc_comm) rs1 = (if is_replayed X b c then [seqnum c] else [])"
    "\<forall>r \<in> set rs1.
                latency_us r = real (coll_interval_ns X (seqnum c)) / 1000
              \<and> global_latency_us r =
                  (if is_blocking b
                   then latency_us r + real (barrier_interval_ns X (seqnum c)) / 1000
                   else latency_us r)" by blast
  from ih obtain rs2 where r2: "traceWithPerf b2 = traceWithPerf b1 @ rs2"
    "map (seqnum \<circ> rc_comm) rs2 = map seqnum (filter (is_replayed X b1) cs)"
    "\<forall>r \<in> set rs2.
               latency_us r = real (coll_interval_ns X (seqnum (rc_comm r))) / 1000
             \<and> global_latency_us r =
                 (if is_blocking b1
                  then latency_us r + real (barrier_interval_ns X (seqnum (rc_comm r))) / 1000
                  else latency_us r)" by blast
  have s1: "\<forall>r \<in> set rs1. seqnum (rc_comm r) = seqnum c"
  proof
    fix r assume "r \<in> set rs1"
    then have "seqnum (rc_comm r) \<in> set (map (seqnum \<circ> rc_comm) rs1)" by force
    then show "seqnum (rc_comm r) = seqnum c" using r1(2) by (simp split: if_splits)
  qed
  have "traceWithPerf b' = traceWithPerf b @ (rs1 @ rs2)
         \<and> map (seqnum \<circ> rc_comm) (rs1 @ rs2) = map seqnum (filter (is_replayed X b) (c # cs))
         \<and> (\<forall>r \<in> set (rs1 @ rs2).
               latency_us r = real (coll_interval_ns X (seqnum (rc_comm r))) / 1000
             \<and> global_latency_us r =
                 (if is_blocking b
                  then latency_us r + real (barrier_interval_ns X (seqnum (rc_comm r))) / 1000
                  else latency_us r))"
    using r1 r2 s1 e by (auto simp: f bf)
  then show ?case using cfg d by blast
qed

lemma runComms_registry:
  assumes "runComms X b collName c = Inr (b', lat, glob)"
  shows "length (waitObjIds (collectiveArgs b')) \<le> 1
       \<and> (\<forall>r h. (r, h) \<in> set (waitObjIds (collectiveArgs b'))
             \<longrightarrow> req c = Some r \<and> \<not> is_blocking b \<and> collName \<noteq> ''wait'')"
  using assms unfolding runComms_def Let_def
  by (auto split: sum.splits option.splits if_splits prod.splits)

lemma wait_all_append: "wait_all (xs @ ys) = wait_all xs @ wait_all ys"
  by (induction xs rule: wait_all.induct) simp_all

lemma runComms_async_collective:
  assumes "\<not> is_blocking b" and "asyncOp (collectiveArgs b)"
    and "dict_get (collectiveFunc (backendFuncs b)) collName = Some Collective"
    and "req c = Some r" and "collName \<noteq> ''wait''"
  shows "\<exists>b'. runComms X b collName c =
            Inr (b', real (coll_interval_ns X (seqnum c)) / 1000,
                 real (coll_interval_ns X (seqnum c)) / 1000)
      \<and> waitObjIds (collectiveArgs b') = [(r, Some (next_handle (collectiveArgs b)))]
      \<and> events (collectiveArgs b') =
          events (collectiveArgs b) @ [Issue collName (Some (next_handle (collectiveArgs b)))]
            @ wait_all (waitObj (collectiveArgs b)) @ [Await (next_handle (collectiveArgs b))]"
  using assms
  by (simp add: runComms_def Let_def collective_def complete_accel_ops_def wait_all_append)

lemmas stat_defs =
  stat_then_replay_def initTraceStat_def statOne_def replayTrace_def outcome_def

lemma replayTrace_result:
  assumes "replayTrace X b = Inr b'"
  shows "dispatched b' = dispatched b @ map seqnum (filter (\<lambda>c. is_replayed X b c
          \<and> paramToCommName X (comms c) \<in> set (dict_keys (collectiveFunc (backendFuncs b))))
            (py_slice_to (max_msg_cnt b) (comms_trace b)))"
    and "\<exists>rs. traceWithPerf b' = traceWithPerf b @ rs
         \<and> map (seqnum \<circ> rc_comm) rs =
             map seqnum (filter (is_replayed X b) (py_slice_to (max_msg_cnt b) (comms_trace b)))
         \<and> (\<forall>r \<in> set rs.
               latency_us r = real (coll_interval_ns X (seqnum (rc_comm r))) / 1000
             \<and> global_latency_us r =
                 (if is_blocking b
                  then latency_us r + real (barrier_interval_ns X (seqnum (rc_comm r))) / 1000
                  else latency_us r))"
proof -
  from assms obtain b1 cs where
    l: "replayLoop X b (py_slice_to (max_msg_cnt b) (comms_trace b)) = Inr (b1, cs)"
    and e: "b' = b1\<lparr>comms_trace := cs @ drop (length cs) (comms_trace b)\<rparr>"
    by (auto simp: replayTrace_def split: sum.splits)
  have d: "dispatched b' = dispatched b1" and t: "traceWithPerf b' = traceWithPerf b1"
    using e by simp_all
  note r = replayLoop_result [OF l]
  show "dispatched b' = dispatched b @ map seqnum (filter (\<lambda>c. is_replayed X b c
          \<and> paramToCommName X (comms c) \<in> set (dict_keys (collectiveFunc (backendFuncs b))))
            (py_slice_to (max_msg_cnt b) (comms_trace b)))"
    using r unfolding d by blast
  show "\<exists>rs. traceWithPerf b' = traceWithPerf b @ rs
         \<and> map (seqnum \<circ> rc_comm) rs =
             map seqnum (filter (is_replayed X b) (py_slice_to (max_msg_cnt b) (comms_trace b)))
         \<and> (\<forall>r \<in> set rs.
               latency_us r = real (coll_interval_ns X (seqnum (rc_comm r))) / 1000
             \<and> global_latency_us r =
                 (if is_blocking b
                  then latency_us r + real (barrier_interval_ns X (seqnum (rc_comm r))) / 1000
                  else latency_us r))"
    using r unfolding t by blast
qed

lemmas eval_congs = prod.case_cong_weak let_weak_cong





section \<open>Auto-shrink rescaling\<close>

text \<open>
  One preparation under auto-shrink, in terms of the sizes the record holds when it is
  prepared: \<open>floor(in / W_rec) * W_live\<close> input elements and the output likewise; for
  \<open>all_to_allv\<close> the splits cut to \<open>W_live\<close> entries and, when not empty, summed to give
  the counts; for \<open>all_gather\<close> the output count equal to the new input count times
  \<open>W_live\<close>. Scenario S4 is the instance \<open>prepComms_shrink_S4\<close>.
\<close>

lemma prepComms_shrink_sizes:
  assumes "shrink b"
    and "world_size (collectiveArgs b) = Some wl"
    and "paramToCommName X (comms c) = kind"
    and "kind \<notin> {''wait'', ''barrier''}"
    and "inMsgSize c = Some i" and "outMsgSize c = Some out"
    and "kind = ''all_to_allv'' \<and> worldSize c = None \<longrightarrow> inSplit c \<noteq> None \<and> outSplit c \<noteq> None"
    and "spec_W_rec kind wl c \<noteq> 0"
  shows "\<exists>b' c'. prepComms X b c = Inr (b', c')
      \<and> (kind \<noteq> ''all_to_allv'' \<longrightarrow>
            inMsgSize c' = Some (i div spec_W_rec kind wl c * wl))
      \<and> (kind \<noteq> ''all_to_allv'' \<and> kind \<noteq> ''all_gather'' \<longrightarrow>
            outMsgSize c' = Some (out div spec_W_rec kind wl c * wl))
      \<and> (kind = ''all_gather'' \<longrightarrow>
            outMsgSize c' = Some (i div spec_W_rec kind wl c * wl * wl))
      \<and> (kind = ''all_to_allv'' \<longrightarrow>
            inSplit c' = Some (spec_truncate wl (inSplit c))
          \<and> outSplit c' = Some (spec_truncate wl (outSplit c))
          \<and> inMsgSize c' = Some (if spec_truncate wl (inSplit c) \<noteq> []
                                  then sum_list (spec_truncate wl (inSplit c))
                                  else i div spec_W_rec kind wl c * wl)
          \<and> outMsgSize c' = Some (if spec_truncate wl (outSplit c) \<noteq> []
                                   then sum_list (spec_truncate wl (outSplit c))
                                   else out div spec_W_rec kind wl c * wl))"
proof -
  have rw: "real_world_size_of kind (Some wl) c = Inr (Some (spec_W_rec kind wl c))"
    using assms(7) by (rule real_world_size_spec)
  have sh: "prepComms_shrink kind (Some wl) c =
      Inr (if kind = ''all_to_allv'' then
             c\<lparr>outSplit := Some (spec_truncate wl (outSplit c)),
               inSplit := Some (spec_truncate wl (inSplit c)),
               inMsgSize := Some (if spec_truncate wl (inSplit c) \<noteq> []
                                  then sum_list (spec_truncate wl (inSplit c))
                                  else i div spec_W_rec kind wl c * wl),
               outMsgSize := Some (if spec_truncate wl (outSplit c) \<noteq> []
                                   then sum_list (spec_truncate wl (outSplit c))
                                   else out div spec_W_rec kind wl c * wl)\<rparr>
           else if kind = ''all_gather'' then
             c\<lparr>inMsgSize := Some (i div spec_W_rec kind wl c * wl),
               outMsgSize := Some (i div spec_W_rec kind wl c * wl * wl)\<rparr>
           else c\<lparr>inMsgSize := Some (i div spec_W_rec kind wl c * wl),
                  outMsgSize := Some (out div spec_W_rec kind wl c * wl)\<rparr>)"
    using assms(5,6,8)
    by (simp add: prepComms_shrink_def rw py_floordiv_def py_mul_def Let_def
        spec_truncate_def split_or_empty_def split: option.splits)
  have "prepComms X b c =
      Inr (b\<lparr>collectiveArgs := (collectiveArgs b)\<lparr>group := WORLD\<rparr>,
             self_world_size := be_world_size (backendFuncs b)\<rparr>,
           (case prepComms_shrink kind (Some wl) c of Inr c1 \<Rightarrow> c1 | Inl e \<Rightarrow> c))"
    using assms(1-4) by (simp add: prepComms_def prepComms_group_shrink sh Let_def)
  then show ?thesis by (simp add: sh)
qed

lemma prepComms_shrink_S4:
  "prepared ext0 (mk_bench [] 4 True True [] [])
       ((mk_sized ''all_gather'' 0 1024 1024)\<lparr>worldSize := Some 8\<rparr>) =
     Some ((mk_sized ''all_gather'' 0 1024 1024)
             \<lparr>worldSize := Some 8, inMsgSize := Some 512, outMsgSize := Some 2048\<rparr>)"
proof -
  let ?b = "mk_bench [] 4 True True [] []"
  let ?c = "(mk_sized ''all_gather'' 0 1024 1024)\<lparr>worldSize := Some 8\<rparr>"
  have k: "paramToCommName ext0 ''all_gather'' = ''all_gather''"
    by (simp add: ext0_def paramToCommName_spec_def py_lower_def lower_char_def)
  have w: "spec_W_rec ''all_gather'' 4 ?c = 8"
    by (simp add: spec_W_rec_def mk_sized_def mk_op_def)
  from prepComms_shrink_sizes [where b = ?b and wl = 4 and kind = "''all_gather''"
      and X = ext0 and c = ?c and i = 1024 and out = 1024]
  obtain b' c' where r: "prepComms ext0 ?b ?c = Inr (b', c')"
      and i: "inMsgSize c' = Some 512" and out: "outMsgSize c' = Some 2048"
    using k w by (auto simp: mk_bench_def mk_sized_def mk_op_def)
  have "prepared ext0 ?b ?c = Some c'" using r by (simp add: prepared_def)
  moreover have "prepared ext0 ?b ?c = Some (?c\<lparr>inMsgSize := Some 512, outMsgSize := Some 2048\<rparr>)"
    by (simp add: prepared_def prepComms_def prepComms_group_def prepComms_shrink_def
        real_world_size_of_def py_floordiv_def py_mul_def Let_def k mk_bench_def
        mk_sized_def mk_op_def get_default_group_def get_world_size_def)
  ultimately show ?thesis by (simp add: mk_sized_def mk_op_def)
qed

text \<open>
  Claim C3. Scenario S4 (recorded world 8, live world 4, \<open>all_gather\<close> of 1024 elements)
  replayed twice with auto-shrink: \<open>replayTrace\<close> hands \<open>prepComms\<close> the record of the
  trace itself, which \<open>prepComms\<close> overwrites, so the first replay prepares 512 and 2048
  elements and the second one 256 and 1024, not \<open>floor(1024 / 8) * 4 = 512\<close> and 2048.
  (\<open>warmUpBench\<close> prepares a deep copy, so that the record is not modified before the
  real run.)
\<close>

theorem C3_second_replay_rescales_again:
  "outcome (\<lambda>b. map (\<lambda>r. (inMsgSize (rc_comm r), outMsgSize (rc_comm r))) (traceWithPerf b))
     (benchTime_replays ext0 2
        ((mk_bench [(mk_sized ''all_gather'' 0 1024 1024)\<lparr>worldSize := Some 8\<rparr>]
            4 True True [''all_gather''] [])
           \<lparr>collLat := [(''all_gather'', [])]\<rparr>)) =
     Inr [(Some 512, Some 2048), (Some 256, Some 1024)]"
  by (simp add: outcome_def replayTrace_def resetComms_def run_defs numeral_2_eq_2
      cong: eval_congs)

section \<open>Unknown rebalance policy\<close>

text \<open>
  Claim C9. With a policy name other than \<open>equal\<close>, \<open>rebalanceSplit\<close> returns the record
  as it received it, having only logged one message; and a warm-up pass that completes
  leaves the whole trace as it was.
\<close>

theorem C9_unknown_policy_unchanged:
  assumes "rebalance_policy b \<noteq> ''equal''"
  shows "rebalanceSplit X b curComm =
           Inr (b\<lparr>logged := logged b @ [''Unsupported balancing policy. Ignoring.'']\<rparr>, curComm)
       \<and> (\<forall>b'. warmUpBench X b = Inr b' \<longrightarrow> comms_trace b' = comms_trace b)"
proof
  show "rebalanceSplit X b curComm =
           Inr (b\<lparr>logged := logged b @ [''Unsupported balancing policy. Ignoring.'']\<rparr>, curComm)"
    using assms by (simp add: rebalanceSplit_def)
  show "\<forall>b'. warmUpBench X b = Inr b' \<longrightarrow> comms_trace b' = comms_trace b"
  proof (intro allI impI)
    fix b' assume w: "warmUpBench X b = Inr b'"
    then obtain b1 cs where l: "warmUpLoop X b (py_slice_to (max_msg_cnt b) (comms_trace b)) = Inr (b1, cs)"
      and e: "b' = b1\<lparr>comms_trace := cs @ drop (length cs) (comms_trace b)\<rparr>"
      by (auto simp: warmUpBench_def split: sum.splits)
    from warmUpLoop_unknown_policy [OF l assms]
    have "cs = py_slice_to (max_msg_cnt b) (comms_trace b)" .
    then show "comms_trace b' = comms_trace b" using e by (simp add: py_slice_to_rejoin)
  qed
qed

theorem C9_unknown_policy_unchanged_witness:
  "rebalanced ext0 (mk_bench [] 2 False True [] ''foo'')
       ((mk_sized ''all_to_allv'' 0 7 7)\<lparr>inSplit := Some [3, 4], outSplit := Some [3, 4]\<rparr>) =
     Some ((mk_sized ''all_to_allv'' 0 7 7)\<lparr>inSplit := Some [3, 4], outSplit := Some [3, 4]\<rparr>)
   \<and> outcome comms_trace
       (warmUpBench ext0 (mk_bench [(mk_sized ''all_to_allv'' 0 7 7)
           \<lparr>inSplit := Some [3, 4], outSplit := Some [3, 4]\<rparr>] 2 False True
           [''all_to_allv''] ''foo'')) =
     Inr [(mk_sized ''all_to_allv'' 0 7 7)\<lparr>inSplit := Some [3, 4], outSplit := Some [3, 4]\<rparr>]"
proof -
  let ?c = "(mk_sized ''all_to_allv'' 0 7 7)\<lparr>inSplit := Some [3, 4], outSplit := Some [3, 4]\<rparr>"
  let ?b = "mk_bench [] 2 False True [] ''foo''"
  let ?b2 = "mk_bench [?c] 2 False True [''all_to_allv''] ''foo''"
  have p: "rebalance_policy ?b \<noteq> ''equal''" "rebalance_policy ?b2 \<noteq> ''equal''"
    by (simp_all add: mk_bench_def)
  have k: "paramToCommName ext0 ''all_to_allv'' = ''all_to_allv''"
    by (simp add: ext0_def paramToCommName_spec_def py_lower_def lower_char_def)
  have ex: "\<exists>b'. warmUpBench ext0 ?b2 = Inr b'"
    by (simp add: warmUpBench_def warmUpOne_def getCommGroupInfo_def prepComms_def
        prepComms_group_def rebalanceSplit_def collectiveFunc_def inherited_spec_def
        collective_def complete_accel_ops_def device_sync_def py_slice_to_def k
        get_default_group_def get_world_size_def mk_bench_def mk_sized_def mk_op_def Let_def
        cong: eval_congs)
  then obtain b' where w: "warmUpBench ext0 ?b2 = Inr b'" ..
  have "comms_trace b' = comms_trace ?b2"
    using C9_unknown_policy_unchanged [OF p(2), of ext0 ?c] w by blast
  then have t: "outcome comms_trace (warmUpBench ext0 ?b2) = Inr [?c]"
    using w by (simp add: outcome_def mk_bench_def)
  have "rebalanced ext0 ?b ?c = Some ?c"
    using C9_unknown_policy_unchanged [OF p(1), of ext0 ?c] by (simp add: rebalanced_def)
  with t show ?thesis by simp
qed

section \<open>The auto-shrink invariant\<close>

text \<open>
  Claim C4, as stated, at two inputs. An \<open>all_to_allv\<close> recorded on 4 ranks with splits
  \<open>[1, 2, 3, 4]\<close>, prepared on 2 ranks, gets the input count 3, which 2 does not divide.
  An \<open>all_to_allv\<close> recorded with empty splits and 8 elements gets the input count 4,
  while its (empty) \<open>in_split\<close> sums to 0.
\<close>

theorem C4_shrink_invariant_counterexample:
  "prepared ext0 (mk_bench [] 2 True True [] [])
       ((mk_sized ''all_to_allv'' 0 10 10)
          \<lparr>worldSize := Some 4, inSplit := Some [1, 2, 3, 4], outSplit := Some [1, 2, 3, 4]\<rparr>) =
     Some ((mk_sized ''all_to_allv'' 0 10 10)
          \<lparr>worldSize := Some 4, inSplit := Some [1, 2], outSplit := Some [1, 2],
            inMsgSize := Some 3, outMsgSize := Some 3\<rparr>)
   \<and> \<not> (2::int) dvd 3
   \<and> prepared ext0 (mk_bench [] 2 True True [] [])
       ((mk_sized ''all_to_allv'' 0 8 8)
          \<lparr>worldSize := Some 4, inSplit := Some [], outSplit := Some []\<rparr>) =
     Some ((mk_sized ''all_to_allv'' 0 8 8)
          \<lparr>worldSize := Some 4, inSplit := Some [], outSplit := Some [],
            inMsgSize := Some 4, outMsgSize := Some 4\<rparr>)
   \<and> sum_list ([]::int list) \<noteq> 4"
proof -
  have k: "paramToCommName ext0 ''all_to_allv'' = ''all_to_allv''"
    by (simp add: ext0_def paramToCommName_spec_def py_lower_def lower_char_def)
  show ?thesis
    by (simp add: prepared_def prepComms_def prepComms_group_def prepComms_shrink_def
        real_world_size_of_def py_floordiv_def py_mul_def py_slice_to_def Let_def k
        mk_bench_def mk_sized_def mk_op_def get_default_group_def get_world_size_def)
qed

text \<open>
  Claim C4, amended. With auto-shrink, the new input count of a prepared operation is a
  multiple of the live world size unless the operation is an \<open>all_to_allv\<close> with a
  non-empty truncated \<open>in_split\<close>; for such an \<open>all_to_allv\<close> the truncated
  \<open>in_split\<close> sums to the new input count.
\<close>

theorem C4_shrink_invariant_amended:
  assumes "shrink b"
    and "world_size (collectiveArgs b) = Some wl"
    and "paramToCommName X (comms c) = kind"
    and "kind \<notin> {''wait'', ''barrier''}"
    and "prepComms X b c = Inr (b', c')"
  shows "\<exists>n. inMsgSize c' = Some n
      \<and> (kind \<noteq> ''all_to_allv'' \<or> spec_truncate wl (inSplit c) = [] \<longrightarrow> wl dvd n)
      \<and> (kind = ''all_to_allv'' \<and> spec_truncate wl (inSplit c) \<noteq> [] \<longrightarrow>
            inSplit c' = Some (spec_truncate wl (inSplit c))
          \<and> sum_list (spec_truncate wl (inSplit c)) = n)"
proof -
  have sh: "prepComms_shrink kind (Some wl) c = Inr c'"
    using assms
    by (auto simp: prepComms_def prepComms_group_shrink Let_def split: sum.splits if_splits)
  then show ?thesis
    by (auto simp: prepComms_shrink_def py_floordiv_def py_mul_def Let_def spec_truncate_def
        split_or_empty_def split: sum.splits option.splits if_splits)
qed

theorem C4_shrink_invariant_amended_witness:
  "prepared ext0 (mk_bench [] 4 True True [] [])
       ((mk_sized ''all_reduce'' 0 1024 1024)\<lparr>worldSize := Some 8\<rparr>) =
     Some ((mk_sized ''all_reduce'' 0 1024 1024)
             \<lparr>worldSize := Some 8, inMsgSize := Some 512, outMsgSize := Some 512\<rparr>)
   \<and> (4::int) dvd 512"
proof -
  let ?b = "mk_bench [] 4 True True [] []"
  let ?c = "(mk_sized ''all_reduce'' 0 1024 1024)\<lparr>worldSize := Some 8\<rparr>"
  let ?c' = "?c\<lparr>inMsgSize := Some 512, outMsgSize := Some 512\<rparr>"
  have k: "paramToCommName ext0 ''all_reduce'' = ''all_reduce''"
    by (simp add: ext0_def paramToCommName_spec_def py_lower_def lower_char_def)
  have r: "prepComms ext0 ?b ?c = Inr (?b\<lparr>collectiveArgs := (collectiveArgs ?b)\<lparr>group := WORLD\<rparr>,
               self_world_size := 4\<rparr>, ?c')"
    by (simp add: prepComms_def prepComms_group_def prepComms_shrink_def
        real_world_size_of_def py_floordiv_def py_mul_def Let_def k mk_bench_def
        mk_sized_def mk_op_def get_default_group_def get_world_size_def)
  have "\<exists>n. inMsgSize ?c' = Some n \<and> (4::int) dvd n"
    using C4_shrink_invariant_amended [where b = ?b and wl = 4 and X = ext0 and c = ?c
        and kind = "''all_reduce''", OF _ _ _ _ r] k
    by (auto simp: mk_bench_def mk_sized_def mk_op_def)
  then have "(4::int) dvd 512" by (simp add: mk_sized_def mk_op_def)
  moreover have "prepared ext0 ?b ?c = Some ?c'" using r by (simp add: prepared_def)
  ultimately show ?thesis by (simp add: mk_sized_def mk_op_def)
qed

section \<open>Groups larger than the live world\<close>

text \<open>
  Claim C7, amended. When some recorded group is larger than the live world,
  \<open>initialize_backend\<close> discards the whole table, the groups that fit included, and
  leaves the single entry \<open>0\<close> for the default group; and with auto-shrink every
  operation, whatever its \<open>pg_id\<close>, resolves to the default group, in
  \<open>getCommGroupInfo\<close> and at prepare time.
\<close>

theorem C7_oversize_group_amended:
  assumes "(k, Some r) \<in> set tbl" and "be_world_size be < int (length r)"
    and "\<forall>(k', v) \<in> set tbl. v \<noteq> None"
  shows "initialize_backend be tbl = Inr [(Some 0, WORLD)]
      \<and> (shrink b \<longrightarrow>
           getCommGroupInfo b c = Inr (get_group_rank (backendFuncs b) WORLD)
         \<and> (\<forall>b' c'. paramToCommName X (comms c) \<notin> {''wait'', ''barrier''}
              \<longrightarrow> prepComms X b c = Inr (b', c')
              \<longrightarrow> group (collectiveArgs b') = WORLD))"
proof -
  have "create_groups (get_world_size be) tbl [] = Inr []"
    using create_groups_oversize [OF assms(1) _ assms(3)] assms(2)
    by (simp add: get_world_size_def)
  then have i: "initialize_backend be tbl = Inr [(Some 0, WORLD)]"
    by (simp add: initialize_backend_def get_default_group_def)
  have g: "shrink b \<Longrightarrow> getCommGroupInfo b c = Inr (get_group_rank (backendFuncs b) WORLD)"
    by (simp add: getCommGroupInfo_def get_default_group_def)
  have p: "shrink b \<Longrightarrow> paramToCommName X (comms c) \<notin> {''wait'', ''barrier''}
      \<Longrightarrow> prepComms X b c = Inr (b', c') \<Longrightarrow> group (collectiveArgs b') = WORLD" for b' c'
    using prepComms_world_size_shrink(2) [of X b c b' c'] by simp
  show ?thesis using i g p by blast
qed

theorem C7_oversize_group_amended_witness:
  "initialize_backend \<lparr>be_world_size = 4, be_global_rank = 0,
        inherited_collectiveFunc = inherited_spec\<rparr>
      [(Some 1, Some [0, 1]), (Some 2, Some [0, 1, 2, 3, 4])] = Inr [(Some 0, WORLD)]
   \<and> getCommGroupInfo (mk_bench [] 4 True True [] [])
        ((mk_sized ''all_reduce'' 0 8 8)\<lparr>pgId := Some 1, worldSize := Some 2\<rparr>) = Inr 0
   \<and> prepared_group ext0 (mk_bench [] 4 True True [] [])
        ((mk_sized ''all_reduce'' 0 8 8)\<lparr>pgId := Some 1, worldSize := Some 2\<rparr>) = Some WORLD"
proof -
  let ?be = "\<lparr>be_world_size = 4, be_global_rank = 0, inherited_collectiveFunc = inherited_spec\<rparr>"
  let ?tbl = "[(Some (1::int), Some [0, 1]), (Some 2, Some [0, 1, 2, 3, 4::int])]"
  let ?b = "mk_bench [] 4 True True [] []"
  let ?c = "(mk_sized ''all_reduce'' 0 8 8)\<lparr>pgId := Some 1, worldSize := Some 2\<rparr>"
  have m: "(Some 2, Some [0, 1, 2, 3, 4]) \<in> set ?tbl" by simp
  have l: "be_world_size ?be < int (length [0, 1, 2, 3, 4::int])" by simp
  have a: "\<forall>(k', v) \<in> set ?tbl. v \<noteq> None" by simp
  have sh: "shrink ?b" by (simp add: mk_bench_def)
  have k: "paramToCommName ext0 (comms ?c) \<notin> {''wait'', ''barrier''}"
    by (simp add: mk_sized_def mk_op_def)
  have ex: "\<exists>b' c'. prepComms ext0 ?b ?c = Inr (b', c')"
    by (simp add: run_defs cong: eval_congs)
  then obtain b' c' where p: "prepComms ext0 ?b ?c = Inr (b', c')" by blast
  note t = C7_oversize_group_amended [OF m l a, of ?b ?c ext0]
  have "group (collectiveArgs b') = WORLD" using t sh k p by blast
  then have "prepared_group ext0 ?b ?c = Some WORLD" using p by (simp add: prepared_group_def)
  moreover have "getCommGroupInfo ?b ?c = Inr 0"
    using t sh by (simp add: mk_bench_def)
  moreover have "initialize_backend ?be ?tbl = Inr [(Some 0, WORLD)]" using t by blast
  ultimately show ?thesis by blast
qed

text \<open>
  Claim C7, as stated, fails on a table with a group of 2 ranks and a group of 5 ranks in
  a world of 4: the group of 2 ranks is not in the table afterwards either.
\<close>

theorem C7_only_that_group_counterexample:
  "initialize_backend \<lparr>be_world_size = 4, be_global_rank = 0,
        inherited_collectiveFunc = inherited_spec\<rparr>
      [(Some 1, Some [0, 1]), (Some 2, Some [0, 1, 2, 3, 4])] = Inr [(Some 0, WORLD)]
   \<and> dict_get [(Some (0::int), WORLD)] (Some 1) = None"
  by (simp add: initialize_backend_def get_world_size_def get_default_group_def)

section \<open>The \<open>equal\<close> rebalance policy\<close>

text \<open>
  Claim C2, amended. For an \<open>all_to_allv\<close> record that the warm-up pass replays with
  the policy \<open>equal\<close>, the value agreed by the \<open>all_reduce\<close> on the record's input count
  is rounded to the nearest multiple \<open>N\<close> of \<open>W * W\<close> (a tie going to the even
  multiple), \<open>W\<close> being the live world size for the default group or under auto-shrink
  and the record's world size otherwise; the record of the trace then has
  \<open>in = out = N / W\<close> and both splits equal to \<open>W\<close> shares of \<open>N / W / W\<close>.
\<close>

theorem C2_rebalance_equal_amended:
  assumes "rebalance_policy b = ''equal''"
    and "paramToCommName X (comms c) = ''all_to_allv''"
    and "''all_to_allv'' \<in> set (allowList b)"
    and "getCommGroupInfo b c = Inr gr" and "gr \<noteq> - 1"
    and "dict_get (collectiveFunc (backendFuncs b)) ''all_to_allv'' \<noteq> None"
    and "warmUpOne X b c = Inr (b', c')"
  shows "\<exists>n w N. inMsgSize c = Some n
      \<and> (if pgId c = None \<or> shrink b then Some (be_world_size (backendFuncs b))
          else worldSize c) = Some w
      \<and> w \<noteq> 0
      \<and> (w * w) dvd N
      \<and> 2 * \<bar>N - all_reduce_value X n\<bar> \<le> w * w
      \<and> (2 * \<bar>N - all_reduce_value X n\<bar> = w * w \<longrightarrow> even (N div (w * w)))
      \<and> c' = c\<lparr>inMsgSize := Some (N div w), outMsgSize := Some (N div w),
               inSplit := Some (replicate (nat w) (N div w div w)),
               outSplit := Some (replicate (nat w) (N div w div w))\<rparr>"
proof -
  from assms obtain bp cp where p: "prepComms X b c = Inr (bp, cp)"
    by (auto simp: warmUpOne_def Let_def split: sum.splits)
  from prepComms_frame [OF p] obtain g w0 s where
    bp: "bp = b\<lparr>collectiveArgs := (collectiveArgs b)\<lparr>group := g, world_size := w0\<rparr>,
                self_world_size := s\<rparr>" by blast
  have cp: "pgId cp = pgId c" "worldSize cp = worldSize c"
    using prepComms_record [OF p] by simp_all
  let ?ws = "if pgId c = None \<or> shrink b then Some (be_world_size (backendFuncs b))
          else worldSize c"
  let ?b2 = "bp\<lparr>collectiveArgs := (collectiveArgs bp)\<lparr>world_size := ?ws\<rparr>\<rparr>"
  have pol: "rebalance_policy ?b2 = ''equal''" using assms(1) bp by simp
  have "0 < length (rebalance_policy b)" using assms(1) by simp
  then obtain b3 where rb: "rebalanceSplit X ?b2 c = Inr (b3, c')"
    using assms p bp cp
    by (auto simp: warmUpOne_def Let_def get_world_size_def split: sum.splits if_splits)
  from rebalanceSplit_equal_result [OF pol rb] obtain n w where
    n: "inMsgSize c = Some n" and w: "world_size (collectiveArgs ?b2) = Some w" "w \<noteq> 0"
    and c': "c' = c\<lparr>inMsgSize := Some ((w * w) * py_round_div (all_reduce_value X n) (w * w) div w),
              outMsgSize := Some ((w * w) * py_round_div (all_reduce_value X n) (w * w) div w),
              inSplit := Some (replicate (nat w)
                 ((w * w) * py_round_div (all_reduce_value X n) (w * w) div w div w)),
              outSplit := Some (replicate (nat w)
                 ((w * w) * py_round_div (all_reduce_value X n) (w * w) div w div w))\<rparr>"
    by blast
  define N where "N = (w * w) * py_round_div (all_reduce_value X n) (w * w)"
  have pos: "0 < w * w" using w(2) by (cases "0 < w") (auto simp: zero_less_mult_iff)
  have ws: "?ws = Some w" using w(1) by simp
  have d: "(w * w) dvd N" by (simp add: N_def)
  have dist: "2 * \<bar>N - all_reduce_value X n\<bar> \<le> w * w"
    unfolding N_def by (rule py_round_div_dist [OF pos])
  have tie: "2 * \<bar>N - all_reduce_value X n\<bar> = w * w \<longrightarrow> even (N div (w * w))"
    unfolding N_def using py_round_div_tie [OF pos] pos by simp
  show ?thesis
    using n ws w(2) d dist tie c' unfolding N_def [symmetric] by blast
qed


theorem C2_rebalance_equal_amended_witness:
  "warmed ext0 (mk_bench [] 2 False True [''all_to_allv''] ''equal'')
       ((mk_sized ''all_to_allv'' 0 9 9)\<lparr>inSplit := Some [4, 5], outSplit := Some [4, 5]\<rparr>) =
     Some ((mk_sized ''all_to_allv'' 0 9 9)
        \<lparr>inSplit := Some [4, 4], outSplit := Some [4, 4], inMsgSize := Some 8,
          outMsgSize := Some 8\<rparr>)
   \<and> (\<exists>N::int. 4 dvd N \<and> 2 * \<bar>N - 18\<bar> \<le> 4 \<and> N div 2 = 8)"
proof -
  let ?b = "mk_bench [] 2 False True [''all_to_allv''] ''equal''"
  let ?c = "(mk_sized ''all_to_allv'' 0 9 9)\<lparr>inSplit := Some [4, 5], outSplit := Some [4, 5]\<rparr>"
  let ?c' = "(mk_sized ''all_to_allv'' 0 9 9)
        \<lparr>inSplit := Some [4, 4], outSplit := Some [4, 4], inMsgSize := Some 8,
          outMsgSize := Some 8\<rparr>"
  have ex: "\<exists>b'. warmUpOne ext0 ?b ?c = Inr (b', ?c')"
    by (simp add: run_defs eval_nat_numeral cong: eval_congs) (simp add: ext0_def)
  then obtain b' where w: "warmUpOne ext0 ?b ?c = Inr (b', ?c')" ..
  have g: "getCommGroupInfo ?b ?c = Inr 0" by (simp add: run_defs)
  have cf: "dict_get (collectiveFunc (backendFuncs ?b)) ''all_to_allv'' \<noteq> None"
    by (simp add: run_defs)
  from C2_rebalance_equal_amended [where b = ?b and X = ext0 and c = ?c and gr = 0,
      OF _ _ _ g _ cf w]
  obtain n w' N where "inMsgSize ?c = Some n" "Some (be_world_size (backendFuncs ?b)) = Some w'"
    "(w' * w') dvd N" "2 * \<bar>N - all_reduce_value ext0 n\<bar> \<le> w' * w'"
    "?c' = ?c\<lparr>inMsgSize := Some (N div w'), outMsgSize := Some (N div w'),
               inSplit := Some (replicate (nat w') (N div w' div w')),
               outSplit := Some (replicate (nat w') (N div w' div w'))\<rparr>"
    by (auto simp: mk_bench_def mk_sized_def mk_op_def)
  then have "4 dvd N \<and> 2 * \<bar>N - 18\<bar> \<le> 4 \<and> N div 2 = 8"
    by (auto simp: mk_bench_def mk_sized_def mk_op_def ext0_def)
  then have "\<exists>N::int. 4 dvd N \<and> 2 * \<bar>N - 18\<bar> \<le> 4 \<and> N div 2 = 8" ..
  moreover have "warmed ext0 ?b ?c = Some ?c'" using w by (simp add: warmed_def)
  ultimately show ?thesis by blast
qed

text \<open>
  Claim C2, as stated, fails for a record of 7 elements in a world of 2 ranks that agree
  on 14: rounding down to a multiple of 4 gives 12 and the input count 6, while the code
  rounds to 16 and sets the input count 8 with splits \<open>[4, 4]\<close>.
\<close>

theorem C2_rebalance_round_down_counterexample:
  "rebalanced ext0 (mk_bench [] 2 False True [] ''equal'')
       ((mk_sized ''all_to_allv'' 0 7 7)\<lparr>inSplit := Some [3, 4], outSplit := Some [3, 4]\<rparr>) =
     Some ((mk_sized ''all_to_allv'' 0 7 7)
        \<lparr>inSplit := Some [4, 4], outSplit := Some [4, 4], inMsgSize := Some 8,
          outMsgSize := Some 8\<rparr>)
   \<and> all_reduce_value ext0 7 = 14
   \<and> spec_round_down 14 2 div 2 = 6"
  by (simp add: rebalanced_def run_defs spec_round_down_def ext0_def eval_nat_numeral
      cong: eval_congs)

section \<open>Trace normalisation\<close>

text \<open>
  Claim C8. A trace of one \<open>all_to_all\<close> record that carries the fields of a
  non-control operation (sizes and dtype) and, not being an \<open>all_to_allv\<close>, no splits:
  \<open>extractCommsInfo\<close> raises \<open>KeyError\<close> instead of returning one record, because the
  test for \<open>all_to_allv\<close> is a substring test. (When the normaliser does return, the
  output has the length of the input and record \<open>i\<close> has \<open>seqnum\<close> \<open>i\<close>:
  \<open>extractLoop_length_seq\<close>.)
\<close>

theorem C8_all_to_all_needs_splits:
  "extractCommsInfo ext0
     [\<lparr>j_comms = Some ''all_to_all'', j_req = None, j_startTime_ns = None, j_markers = None,
       j_world_size = Some 4, j_root = None, j_pg_id = None, j_global_ranks = None,
       j_in_msg_size = Some 8, j_out_msg_size = Some 8, j_dtype = Some ''Int'',
       j_in_split = None, j_out_split = None\<rparr>] = Inl KeyError"
proof -
  have l: "py_lower ''all_to_all'' = ''all_to_all''"
    by (simp add: py_lower_def lower_char_def)
  show ?thesis by (simp add: extractCommsInfo_def extractOne_def Let_def l)
qed


section \<open>The wait queue and the request registry\<close>

text \<open>
  Claim C10. \<open>complete_accel_ops\<close> waits on every handle of the FIFO \<open>waitObj\<close> and
  then clears both \<open>waitObj\<close> and \<open>waitObjIds\<close>, whatever \<open>devSync\<close> is. So when
  \<open>runComms\<close> returns, \<open>waitObjIds\<close> has at most one entry, which belongs to the
  operation just replayed (non-blocking, carrying a \<open>req\<close>, not a \<open>wait\<close>); for an
  asynchronous collective that entry is the handle its dispatch returned.
\<close>

theorem C10_registry_at_most_one:
  "waitObj (complete_accel_ops devSync ca) = []
   \<and> waitObjIds (complete_accel_ops devSync ca) = []
   \<and> events (complete_accel_ops devSync ca) =
        events ca @ map Await (List.map_filter id (waitObj ca))
          @ (if devSync then [DeviceSync] else [])
   \<and> (\<forall>b' lat glob. runComms X b collName c = Inr (b', lat, glob) \<longrightarrow>
         length (waitObjIds (collectiveArgs b')) \<le> 1
       \<and> (\<forall>r h. (r, h) \<in> set (waitObjIds (collectiveArgs b'))
             \<longrightarrow> req c = Some r \<and> \<not> is_blocking b \<and> collName \<noteq> ''wait''))
   \<and> (\<not> is_blocking b \<and> asyncOp (collectiveArgs b)
        \<and> dict_get (collectiveFunc (backendFuncs b)) collName = Some Collective
        \<and> req c = Some r \<and> collName \<noteq> ''wait'' \<longrightarrow>
       (\<exists>b' lat glob. runComms X b collName c = Inr (b', lat, glob)
          \<and> waitObjIds (collectiveArgs b') = [(r, Some (next_handle (collectiveArgs b)))]
          \<and> events (collectiveArgs b') =
              events (collectiveArgs b)
                @ [Issue collName (Some (next_handle (collectiveArgs b)))]
                @ wait_all (waitObj (collectiveArgs b))
                @ [Await (next_handle (collectiveArgs b))]))"
proof (intro conjI)
  show "events (complete_accel_ops devSync ca) =
        events ca @ map Await (List.map_filter id (waitObj ca))
          @ (if devSync then [DeviceSync] else [])"
    by (simp add: complete_accel_ops_def device_sync_def wait_all_filter Let_def)
  show "\<forall>b' lat glob. runComms X b collName c = Inr (b', lat, glob) \<longrightarrow>
         length (waitObjIds (collectiveArgs b')) \<le> 1
       \<and> (\<forall>r h. (r, h) \<in> set (waitObjIds (collectiveArgs b'))
             \<longrightarrow> req c = Some r \<and> \<not> is_blocking b \<and> collName \<noteq> ''wait'')"
    using runComms_registry by blast
  show "\<not> is_blocking b \<and> asyncOp (collectiveArgs b)
        \<and> dict_get (collectiveFunc (backendFuncs b)) collName = Some Collective
        \<and> req c = Some r \<and> collName \<noteq> ''wait'' \<longrightarrow>
       (\<exists>b' lat glob. runComms X b collName c = Inr (b', lat, glob)
          \<and> waitObjIds (collectiveArgs b') = [(r, Some (next_handle (collectiveArgs b)))]
          \<and> events (collectiveArgs b') =
              events (collectiveArgs b)
                @ [Issue collName (Some (next_handle (collectiveArgs b)))]
                @ wait_all (waitObj (collectiveArgs b))
                @ [Await (next_handle (collectiveArgs b))])"
    using runComms_async_collective by blast
qed simp_all

theorem C10_registry_at_most_one_witness:
  "map_option (\<lambda>b. (waitObjIds (collectiveArgs b), events (collectiveArgs b)))
       (ran ext0 (mk_bench [] 2 False False [''all_reduce'', ''wait''] []) ''all_reduce''
          ((mk_sized ''all_reduce'' 0 8 8)\<lparr>req := Some 1\<rparr>)) =
     Some ([(1, Some 0)], [Issue ''all_reduce'' (Some 0), Await 0])"
proof -
  let ?b = "mk_bench [] 2 False False [''all_reduce'', ''wait''] []"
  let ?c = "(mk_sized ''all_reduce'' 0 8 8)\<lparr>req := Some 1\<rparr>"
  have h: "\<not> is_blocking ?b \<and> asyncOp (collectiveArgs ?b)
        \<and> dict_get (collectiveFunc (backendFuncs ?b)) ''all_reduce'' = Some Collective
        \<and> req ?c = Some 1 \<and> ''all_reduce'' \<noteq> ''wait''"
    by (simp add: mk_bench_def mk_sized_def mk_op_def collectiveFunc_def inherited_spec_def)
  from C10_registry_at_most_one [of True "collectiveArgs ?b" ext0 ?b "''all_reduce''" ?c 1] h
  obtain b' lat glob where r: "runComms ext0 ?b ''all_reduce'' ?c = Inr (b', lat, glob)"
    and w: "waitObjIds (collectiveArgs b') = [(1, Some (next_handle (collectiveArgs ?b)))]"
    and e: "events (collectiveArgs b') =
              events (collectiveArgs ?b)
                @ [Issue ''all_reduce'' (Some (next_handle (collectiveArgs ?b)))]
                @ wait_all (waitObj (collectiveArgs ?b))
                @ [Await (next_handle (collectiveArgs ?b))]"
    by blast
  have "ran ext0 ?b ''all_reduce'' ?c = Some b'" using r by (simp add: ran_def)
  then show ?thesis using w e by (simp add: mk_bench_def)
qed

text \<open>
  Claim C1. Non-blocking replay of two \<open>all_reduce\<close> operations with \<open>req\<close> 1 and 2
  followed by a \<open>wait\<close> with \<open>req\<close> 1: each handle is awaited once, by the
  \<open>complete_accel_ops\<close> of its own operation, and the \<open>wait\<close> awaits nothing, the
  entry for \<open>req\<close> 1 having been cleared when the second operation was replayed. And
  an \<open>all_reduce\<close> followed by a \<open>wait\<close>, neither with a \<open>req\<close>: the \<open>wait\<close> finds
  the FIFO empty and pops nothing.
\<close>

theorem C1_wait_after_intervening_op:
  "outcome (\<lambda>b. events (collectiveArgs b))
       (stat_then_replay ext0
          (mk_bench [(mk_sized ''all_reduce'' 0 8 8)\<lparr>req := Some 1\<rparr>,
                     (mk_sized ''all_reduce'' 1 8 8)\<lparr>req := Some 2\<rparr>,
                     (mk_op ''wait'' 2)\<lparr>req := Some 1\<rparr>]
             2 False False [''all_reduce'', ''wait''] [])) =
     Inr [Issue ''all_reduce'' (Some 0), Await 0, Issue ''all_reduce'' (Some 1), Await 1]
   \<and> outcome (\<lambda>b. events (collectiveArgs b))
       (stat_then_replay ext0
          (mk_bench [mk_sized ''all_reduce'' 0 8 8, mk_op ''wait'' 1]
             2 False False [''all_reduce'', ''wait''] [])) =
     Inr [Issue ''all_reduce'' (Some 0), Await 0]"
  by (simp add: stat_defs run_defs cong: eval_congs)

section \<open>Which operations are replayed\<close>




section \<open>Latency accounting\<close>

text \<open>
  Claim C6. Every record a replay adds to the output trace has, in blocking mode, a
  latency no larger than its global latency, the global latency being the latency plus
  the duration of the barrier that follows; in non-blocking mode the two are equal.
\<close>

theorem C6_latency_accounting:
  assumes "replayTrace X b = Inr b'"
  shows "\<forall>r \<in> set (drop (length (traceWithPerf b)) (traceWithPerf b')).
           (if is_blocking b
            then latency_us r \<le> global_latency_us r
               \<and> global_latency_us r =
                   latency_us r + real (barrier_interval_ns X (seqnum (rc_comm r))) / 1000
            else latency_us r = global_latency_us r)"
proof -
  from replayTrace_result(2) [OF assms] obtain rs where
    t: "traceWithPerf b' = traceWithPerf b @ rs"
    and l: "\<forall>r \<in> set rs.
               latency_us r = real (coll_interval_ns X (seqnum (rc_comm r))) / 1000
             \<and> global_latency_us r =
                 (if is_blocking b
                  then latency_us r + real (barrier_interval_ns X (seqnum (rc_comm r))) / 1000
                  else latency_us r)"
    by blast
  have "\<forall>r \<in> set rs.
           (if is_blocking b
            then latency_us r \<le> global_latency_us r
               \<and> global_latency_us r =
                   latency_us r + real (barrier_interval_ns X (seqnum (rc_comm r))) / 1000
            else latency_us r = global_latency_us r)"
    using l by auto
  then show ?thesis using t by simp
qed

theorem C6_latency_accounting_witness:
  "outcome (\<lambda>b. map (\<lambda>r. (latency_us r, global_latency_us r)) (traceWithPerf b))
     (replayTrace ext0
        ((mk_bench [mk_sized ''all_reduce'' 0 8 8] 2 False True [''all_reduce''] [])
           \<lparr>collLat := [(''all_reduce'', [])]\<rparr>)) = Inr [(5, 7)]
   \<and> outcome (\<lambda>b. map (\<lambda>r. (latency_us r, global_latency_us r)) (traceWithPerf b))
     (replayTrace ext0
        ((mk_bench [mk_sized ''all_reduce'' 0 8 8] 2 False False [''all_reduce''] [])
           \<lparr>collLat := [(''all_reduce'', [])]\<rparr>)) = Inr [(5, 5)]"
proof -
  let ?b = "(mk_bench [mk_sized ''all_reduce'' 0 8 8] 2 False True [''all_reduce''] [])
           \<lparr>collLat := [(''all_reduce'', [])]\<rparr>"
  let ?n = "(mk_bench [mk_sized ''all_reduce'' 0 8 8] 2 False False [''all_reduce''] [])
           \<lparr>collLat := [(''all_reduce'', [])]\<rparr>"
  have "\<exists>b' r. replayTrace ext0 ?b = Inr b' \<and> traceWithPerf b' = [r]
          \<and> latency_us r = 5"
    by (simp add: replayTrace_def run_defs cong: eval_congs) (simp add: ext0_def)
  then obtain b' r where r: "replayTrace ext0 ?b = Inr b'" "traceWithPerf b' = [r]"
    "latency_us r = 5" by blast
  have "global_latency_us r = latency_us r + real (barrier_interval_ns ext0 (seqnum (rc_comm r))) / 1000"
    using C6_latency_accounting [OF r(1)] r(2) by (simp add: mk_bench_def)
  then have g: "global_latency_us r = 7" using r(3) by (simp add: ext0_def)
  have "\<exists>b' r. replayTrace ext0 ?n = Inr b' \<and> traceWithPerf b' = [r]
          \<and> latency_us r = 5"
    by (simp add: replayTrace_def run_defs cong: eval_congs) (simp add: ext0_def)
  then obtain n' q where q: "replayTrace ext0 ?n = Inr n'" "traceWithPerf n' = [q]"
    "latency_us q = 5" by blast
  have "latency_us q = global_latency_us q"
    using C6_latency_accounting [OF q(1)] q(2) by (simp add: mk_bench_def)
  then have h: "global_latency_us q = 5" using q(3) by simp
  show ?thesis using r g q h by (simp add: outcome_def)
qed


end
